theory Spec2Isabelle
  imports Main "HOL-Library.Word" "HOL-Library.Finite_Map"
begin

unbundle bit_operations_syntax

section \<open>Data model (lncd/lncd.go, lines 80-127)\<close>

type_synonym byte = "8 word"

text \<open>
  Error values. The first two are the errors of Go's \<open>encoding/hex\<close>; \<open>NoMacaroon\<close> is
  \<open>errors.New("authdata does not contain a macaroon")\<close> (line 155);
  \<open>TooManyActiveConnections\<close> is \<open>fmt.Errorf("too many active connections")\<close> (line 268);
  \<open>BadPermissionFormat\<close> is the failure of the permission manager's \<open>check\<close>;
  \<open>LibraryError\<close> stands for an error produced by an external package.
\<close>

datatype error =
    ErrLength
  | InvalidByteError char
  | NoMacaroon
  | TooManyActiveConnections
  | BadPermissionFormat
  | LibraryError string

datatype Macaroon = Macaroon (caveats: "string list")

record ConnectionInfo =
  Mailbox :: string
  PairingPhrase :: string
  LocalKey :: string
  RemoteKey :: string
  Status :: string
  macaroon :: "Macaroon option"

datatype ConnectionKey = ConnectionKey (mailbox: string) (pairingPhrase: string)

text \<open>
  An action carries two closures, \<open>onError\<close> and \<open>onResponse\<close>. They are represented by
  the action's \<open>ident\<close>: calling \<open>req.onError(err)\<close> is recorded as the event
  \<open>OnError (ident req) err\<close>, calling \<open>req.onResponse(info, result)\<close> as
  \<open>OnResponse (ident req) info result\<close>.
\<close>

record Action =
  "method" :: string
  payload :: string
  ident :: nat

text \<open>
  The steps of the program that the claims speak of, in order.
  \<open>Invoke\<close>: a registry function is called with a method name and a payload.
  \<open>Handshake\<close>: \<open>NewConnection\<close> is called for a descriptor (line 271).
  \<open>Install\<close>: \<open>pool.connections[key] = connection\<close> (line 289).
  \<open>Send\<close>: \<open>connection.actions <- req\<close> (line 298) completes for the connection at that
  address.
  The flag of each of these three is the state of the pool's mutex when the step is
  taken.
  \<open>Closed\<close>: \<open>Close()\<close> is called on the connection object at that address.
  \<open>Sleep\<close>: \<open>time.Sleep(1 * time.Second)\<close>.
\<close>

datatype event =
    OnError nat error
  | OnResponse nat ConnectionInfo string
  | Invoke string string
  | Handshake ConnectionInfo bool
  | Install ConnectionKey bool
  | Send nat bool
  | Closed nat
  | Sleep

text \<open>
  A registry entry is a function of the external package \<open>lnrpc\<close>. It receives the payload
  and a callback, and hands the callback a result and an error any number of times: the
  list holds these pairs in order.
\<close>

type_synonym invoker = "string \<Rightarrow> (string \<times> error option) list"

record PermissionManager =
  capabilities :: "(string \<times> string) set"

text \<open>
  \<open>time.Timer\<close> created by \<open>time.AfterFunc\<close>: the instant at which it will go off
  (\<open>None\<close> once it has gone off and has not been reset), and the variable \<open>info\<close> captured
  by the function it runs.
\<close>

record Timer =
  due :: "int option"
  captured :: ConnectionInfo

text \<open>
  \<open>actions\<close> is the channel's buffer (\<open>make(chan Action, 1)\<close>); \<open>closed\<close> is set by \<open>Close()\<close>,
  which closes the channel and the gRPC client. The back pointer \<open>pool\<close> and the opaque
  \<open>grpcClient\<close> are left out.
\<close>

record Connection =
  connInfo :: ConnectionInfo
  actions :: "Action list"
  closed :: bool
  registry :: "string \<rightharpoonup> invoker"
  timeoutTimer :: "Timer option"
  perms :: PermissionManager

text \<open>
  The pool (\<open>connections\<close>, \<open>mutex\<close>) with the connection objects its pointers refer to
  (\<open>heap\<close>, an address is an index) and the events so far (\<open>trace\<close>).
\<close>

record state =
  connections :: "(ConnectionKey, nat) fmap"
  mutex :: bool
  heap :: "Connection list"
  trace :: "event list"

definition NewConnectionPool :: state where
  "NewConnectionPool = \<lparr>connections = fmempty, mutex = False, heap = [], trace = []\<rparr>"

section \<open>External packages and configuration\<close>

text \<open>
  What the handshake of the external package \<open>mailbox\<close> does with the two callbacks it is
  given and what the following calls return: the key passed to the first callback (if
  the peer's static key is learned), the bytes passed to the second (if the peer delivers
  authorization data), the error of \<open>lndConnect()\<close>, and \<open>statusChecker().String()\<close>.
\<close>

record 'pub dialog =
  revealed :: "'pub option"
  authdata :: "string option"
  connect_error :: "error option"
  status :: string

text \<open>
  The functions of external packages (\<open>btcec\<close>, \<open>mailbox\<close>, \<open>macaroon\<close>, \<open>lnrpc\<close>,
  \<open>encoding/json\<close>) and of the permission manager's constructor, whose code is not part of
  \<open>lncd.go\<close>, are parameters, with the two configuration variables the pool reads.
  \<open>NewPrivateKey\<close> is the outcome of the random key generation.
\<close>

record ('priv, 'pub) env =
  NewPrivateKey :: "error + 'priv"
  PrivKeyFromBytes :: "byte list \<Rightarrow> 'priv"
  ParsePubKey :: "byte list \<Rightarrow> error + 'pub"
  Serialize :: "'priv \<Rightarrow> byte list"
  SerializeCompressed :: "'pub \<Rightarrow> byte list"
  NewClientWebsocketConn :: "string \<Rightarrow> string \<Rightarrow> 'priv \<Rightarrow> 'pub option \<Rightarrow> error + 'pub dialog"
  UnmarshalBinary :: "byte list \<Rightarrow> error + Macaroon"
  NewPermissionManager :: "ConnectionInfo \<Rightarrow> error + PermissionManager"
  LightningJSONCallbacks :: "string \<rightharpoonup> invoker"
  json_Unmarshal :: "string \<Rightarrow> error + string list"
  LNCD_TIMEOUT :: int
  LNCD_LIMIT_ACTIVE_CONNECTIONS :: int

section \<open>Hexadecimal strings (Go's encoding/hex)\<close>

definition fromHexChar :: "char \<Rightarrow> byte option" where
  "fromHexChar c =
     (let n = (of_char c :: nat) in
      if 48 \<le> n \<and> n \<le> 57 then Some (of_nat (n - 48))
      else if 97 \<le> n \<and> n \<le> 102 then Some (of_nat (n - 97 + 10))
      else if 65 \<le> n \<and> n \<le> 70 then Some (of_nat (n - 65 + 10))
      else None)"

text \<open>
  \<open>hex.DecodeString\<close>: two digits give one byte; the first character that is not a digit is
  reported; a single digit left over is \<open>ErrLength\<close>.
\<close>

fun hex_DecodeString :: "string \<Rightarrow> error + byte list" where
  "hex_DecodeString [] = Inr []"
| "hex_DecodeString [p] =
     (case fromHexChar p of None \<Rightarrow> Inl (InvalidByteError p) | Some a \<Rightarrow> Inl ErrLength)"
| "hex_DecodeString (p # q # src) =
     (case fromHexChar p of
        None \<Rightarrow> Inl (InvalidByteError p)
      | Some a \<Rightarrow>
          (case fromHexChar q of
             None \<Rightarrow> Inl (InvalidByteError q)
           | Some b \<Rightarrow>
               (case hex_DecodeString src of
                  Inl err \<Rightarrow> Inl err
                | Inr dst \<Rightarrow> Inr ((push_bit 4 a OR b) # dst))))"

definition hextable :: string where
  "hextable = ''0123456789abcdef''"

definition hex_EncodeToString :: "byte list \<Rightarrow> string" where
  "hex_EncodeToString src =
     concat (map (\<lambda>v. [hextable ! unat (drop_bit 4 v), hextable ! unat (v AND 15)]) src)"

section \<open>Key material (parseKeys, lines 379-440)\<close>

definition parseKeys ::
  "('priv, 'pub) env \<Rightarrow> string \<Rightarrow> string \<Rightarrow> error + ('priv \<times> 'pub option)" where
  "parseKeys env localPrivKey remotePubKey =
     (if localPrivKey = [] \<and> remotePubKey = [] then
        (case NewPrivateKey env of
           Inl err \<Rightarrow> Inl err
         | Inr privKey \<Rightarrow> Inr (privKey, None))
      else if remotePubKey = [] then
        (case hex_DecodeString localPrivKey of
           Inl err \<Rightarrow> Inl err
         | Inr privKeyByte \<Rightarrow> Inr (PrivKeyFromBytes env privKeyByte, None))
      else
        (case hex_DecodeString localPrivKey of
           Inl err \<Rightarrow> Inl err
         | Inr localPrivKeyBytes \<Rightarrow>
             (case hex_DecodeString remotePubKey of
                Inl err \<Rightarrow> Inl err
              | Inr remoteKeyBytes \<Rightarrow>
                  (case ParsePubKey env remoteKeyBytes of
                     Inl err \<Rightarrow> Inl err
                   | Inr remoteStaticKey \<Rightarrow>
                       Inr (PrivKeyFromBytes env localPrivKeyBytes, Some remoteStaticKey)))))"

text \<open>
  The key parser in the words of the specification (sections 3 and 4.A). The local key
  is the hex of a 32-byte scalar: it is decoded as one, and a string that is not the hex
  of 32 bytes is not decoded. The remote key is the hex of a 33-byte compressed point: it
  is validated as a valid compressed point on the curve, that is, 33 bytes that start
  with 0x02 or 0x03 and that the curve validation accepts. There are three cases,
  decided by which inputs are empty, and every failure is a \<open>BadKey\<close>. The specification
  names no case for an empty local key with a remote key present: there the result is
  \<open>None\<close>.
\<close>

datatype spec_error = BadKey

definition compressed_form :: "byte list \<Rightarrow> bool" where
  "compressed_form bs \<longleftrightarrow> length bs = 33 \<and> (hd bs = 2 \<or> hd bs = 3)"

definition spec_scalar :: "string \<Rightarrow> spec_error + byte list" where
  "spec_scalar s =
     (case hex_DecodeString s of
        Inl err \<Rightarrow> Inl BadKey
      | Inr bs \<Rightarrow> if length bs = 32 then Inr bs else Inl BadKey)"

definition spec_point :: "('priv, 'pub) env \<Rightarrow> string \<Rightarrow> spec_error + 'pub" where
  "spec_point env s =
     (case hex_DecodeString s of
        Inl err \<Rightarrow> Inl BadKey
      | Inr bs \<Rightarrow>
          if compressed_form bs then
            (case ParsePubKey env bs of
               Inl err \<Rightarrow> Inl BadKey
             | Inr remotePoint \<Rightarrow> Inr remotePoint)
          else Inl BadKey)"

definition parseKeys_spec ::
  "('priv, 'pub) env \<Rightarrow> string \<Rightarrow> string \<Rightarrow> (spec_error + ('priv \<times> 'pub option)) option" where
  "parseKeys_spec env localHex remoteHex =
     (if localHex = [] \<and> remoteHex = [] then
        Some (case NewPrivateKey env of Inl err \<Rightarrow> Inl BadKey | Inr priv \<Rightarrow> Inr (priv, None))
      else if localHex \<noteq> [] \<and> remoteHex = [] then
        Some (case spec_scalar localHex of
                Inl e \<Rightarrow> Inl e
              | Inr scalar \<Rightarrow> Inr (PrivKeyFromBytes env scalar, None))
      else if localHex \<noteq> [] \<and> remoteHex \<noteq> [] then
        Some (case spec_scalar localHex of
                Inl e \<Rightarrow> Inl e
              | Inr scalar \<Rightarrow>
                  (case spec_point env remoteHex of
                     Inl e \<Rightarrow> Inl e
                   | Inr remotePoint \<Rightarrow> Inr (PrivKeyFromBytes env scalar, Some remotePoint)))
      else None)"

definition as_BadKey :: "error + 'a \<Rightarrow> spec_error + 'a" where
  "as_BadKey r = (case r of Inl err \<Rightarrow> Inl BadKey | Inr v \<Rightarrow> Inr v)"

text \<open>
  The keys have the shape the specification gives them: a local key that is present and
  is a hex string decodes to 32 bytes, a remote key that is present and is a hex string
  decodes to 33 bytes that start with 0x02 or 0x03.
\<close>

definition shaped :: "string \<Rightarrow> string \<Rightarrow> bool" where
  "shaped localHex remoteHex \<longleftrightarrow>
     (localHex = [] \<or>
        (case hex_DecodeString localHex of Inl err \<Rightarrow> True | Inr bs \<Rightarrow> length bs = 32))
     \<and> (remoteHex = [] \<or>
        (case hex_DecodeString remoteHex of Inl err \<Rightarrow> True | Inr bs \<Rightarrow> compressed_form bs))"

section \<open>Session construction (NewConnection, lines 135-203)\<close>

text \<open>\<open>strings.Split(s, ": ")\<close>, with the part read so far as first argument.\<close>

fun Split_colon_space :: "string \<Rightarrow> string \<Rightarrow> string list" where
  "Split_colon_space cur [] = [cur]"
| "Split_colon_space cur [c] = [cur @ [c]]"
| "Split_colon_space cur (c # d # s) =
     (if c = CHR '':'' \<and> d = CHR '' '' then cur # Split_colon_space [] s
      else Split_colon_space (cur @ [c]) (d # s))"

text \<open>The second callback given to the handshake (lines 151-173).\<close>

definition onAuthData :: "('priv, 'pub) env \<Rightarrow> string \<Rightarrow> error + Macaroon" where
  "onAuthData env data =
     (let parts = Split_colon_space [] data in
      if length parts \<noteq> 2 \<or> parts ! 0 \<noteq> ''Macaroon'' then Inl NoMacaroon
      else
        (case hex_DecodeString (parts ! 1) of
           Inl err \<Rightarrow> Inl err
         | Inr macBytes \<Rightarrow>
             (case UnmarshalBinary env macBytes of
                Inl err \<Rightarrow> Inl err
              | Inr mac \<Rightarrow> Inr mac)))"

text \<open>
  \<open>info\<close> is the function's own copy of the descriptor. The callbacks write to it while the
  handshake runs; an error returned by the second callback fails the handshake
  (section 4.B of the specification). A new connection has an empty queue and no timer.
\<close>

definition NewConnection :: "('priv, 'pub) env \<Rightarrow> ConnectionInfo \<Rightarrow> error + Connection" where
  "NewConnection env info =
     (case parseKeys env (LocalKey info) (RemoteKey info) of
        Inl err \<Rightarrow> Inl err
      | Inr (localPriv, remotePub) \<Rightarrow>
          (let info1 = info\<lparr>LocalKey := hex_EncodeToString (Serialize env localPriv)\<rparr> in
           case NewClientWebsocketConn env (Mailbox info1) (PairingPhrase info1) localPriv remotePub of
             Inl err \<Rightarrow> Inl err
           | Inr d \<Rightarrow>
               (let info2 =
                      (case revealed d of
                         None \<Rightarrow> info1
                       | Some key \<Rightarrow>
                           info1\<lparr>RemoteKey := hex_EncodeToString (SerializeCompressed env key)\<rparr>)
                in
                case (case authdata d of
                        None \<Rightarrow> Inr info2
                      | Some data \<Rightarrow>
                          (case onAuthData env data of
                             Inl err \<Rightarrow> Inl err
                           | Inr mac \<Rightarrow> Inr (info2\<lparr>macaroon := Some mac\<rparr>))) of
                  Inl err \<Rightarrow> Inl err
                | Inr info3 \<Rightarrow>
                    (case connect_error d of
                       Some err \<Rightarrow> Inl err
                     | None \<Rightarrow>
                         (let info4 = info3\<lparr>Status := status d\<rparr> in
                          case NewPermissionManager env info4 of
                            Inl err \<Rightarrow> Inl err
                          | Inr pm \<Rightarrow>
                              Inr \<lparr>connInfo = info4, actions = [], closed = False,
                                   registry = LightningJSONCallbacks env,
                                   timeoutTimer = None, perms = pm\<rparr>)))))"

section \<open>Permission check\<close>

text \<open>
  Modelled from the spec: the permission manager's \<open>check\<close>, whose code is not part of
  \<open>lncd.go\<close>. Section 4.D: parse the request as \<open>entity:action\<close>; answer true iff the exact
  pair, or \<open>(entity, "*")\<close>, or \<open>("*", action)\<close>, or \<open>("*", "*")\<close> is in the capability set;
  unknown syntax fails with \<open>BadPermissionFormat\<close>. A request is taken to have this syntax
  when it holds exactly one colon.
\<close>

definition parse_permission :: "string \<Rightarrow> (string \<times> string) option" where
  "parse_permission requested =
     (if count_list requested CHR '':'' = 1
      then Some (takeWhile (\<lambda>c. c \<noteq> CHR '':'') requested,
                 tl (dropWhile (\<lambda>c. c \<noteq> CHR '':'') requested))
      else None)"

definition check :: "PermissionManager \<Rightarrow> string \<Rightarrow> error + bool" where
  "check pm requested =
     (case parse_permission requested of
        None \<Rightarrow> Inl BadPermissionFormat
      | Some (entity, action) \<Rightarrow>
          Inr ((entity, action) \<in> capabilities pm \<or> (entity, ''*'') \<in> capabilities pm
               \<or> (''*'', action) \<in> capabilities pm \<or> (''*'', ''*'') \<in> capabilities pm))"

text \<open>
  A request is permitted by a capability set when it names a pair \<open>entity:action\<close> and the set
  holds that pair or one of its three wildcard forms.
\<close>

definition permitted :: "(string \<times> string) set \<Rightarrow> string \<Rightarrow> bool" where
  "permitted caps requested =
     (case parse_permission requested of
        None \<Rightarrow> False
      | Some (entity, action) \<Rightarrow>
          (entity, action) \<in> caps \<or> (entity, ''*'') \<in> caps
          \<or> (''*'', action) \<in> caps \<or> (''*'', ''*'') \<in> caps)"

section \<open>Dispatch loop (runLoop, lines 205-250)\<close>

fun join_comma :: "string list \<Rightarrow> string" where
  "join_comma [] = []"
| "join_comma [x] = x"
| "join_comma (x # y # xs) = x @ '','' @ join_comma (y # xs)"

text \<open>
  \<open>json.Marshal\<close> of a \<open>[]bool\<close> made by \<open>make\<close>: the array of \<open>true\<close> and \<open>false\<close>; it has
  no failing case.
\<close>

definition json_bools :: "bool list \<Rightarrow> string" where
  "json_bools valid =
     ''['' @ join_comma (map (\<lambda>b. if b then ''true'' else ''false'') valid) @ '']''"

definition json_Marshal :: "bool list \<Rightarrow> error + string" where
  "json_Marshal valid = Inr (json_bools valid)"

text \<open>The loop of lines 215-223: \<open>valid[i]\<close> is written for each \<open>i, perm\<close> in turn.\<close>

fun check_loop :: "PermissionManager \<Rightarrow> nat \<Rightarrow> string list \<Rightarrow> bool list \<Rightarrow> bool list" where
  "check_loop pm i [] valid = valid"
| "check_loop pm i (perm # rest) valid =
     check_loop pm (Suc i) rest
       (case check pm perm of
          Inl err \<Rightarrow> valid[i := False]
        | Inr allowed \<Rightarrow> valid[i := allowed])"

text \<open>The body of the loop for one action \<open>req\<close>: the events it causes.\<close>

definition runLoop_body :: "('priv, 'pub) env \<Rightarrow> Connection \<Rightarrow> Action \<Rightarrow> event list" where
  "runLoop_body env conn req =
     (if method req = ''checkPerms'' then
        (case json_Unmarshal env (payload req) of
           Inl err \<Rightarrow> [OnError (ident req) err]
         | Inr permissions \<Rightarrow>
             (let valid = check_loop (perms conn) 0 permissions
                            (replicate (length permissions) False) in
              case json_Marshal valid of
                Inl err \<Rightarrow> [OnError (ident req) err]
              | Inr result \<Rightarrow> [OnResponse (ident req) (connInfo conn) result]))
      else
        (case registry conn (method req) of
           Some methodFunc \<Rightarrow>
             Invoke (method req) (payload req) #
             map (\<lambda>(resultJSON, err).
                    case err of
                      Some e \<Rightarrow> OnError (ident req) e
                    | None \<Rightarrow> OnResponse (ident req) (connInfo conn) resultJSON)
                 (methodFunc (payload req))
         | None \<Rightarrow> []))"

text \<open>
  One turn of the loop of the connection at address \<open>i\<close>: it takes the action at the head
  of the channel and runs the body on it. With nothing to take it waits.
\<close>

definition runLoop_step :: "('priv, 'pub) env \<Rightarrow> nat \<Rightarrow> state \<Rightarrow> state" where
  "runLoop_step env i s =
     (if i < length (heap s) then
        (case actions (heap s ! i) of
           [] \<Rightarrow> s
         | req # rest \<Rightarrow>
             s\<lparr>heap := (heap s)[i := (heap s ! i)\<lparr>actions := rest\<rparr>],
               trace := trace s @ runLoop_body env (heap s ! i) req\<rparr>)
      else s)"

section \<open>The pool (execute, lines 257-312)\<close>

text \<open>
  How a piece of code ends: \<open>Done\<close>, it returns (\<open>try\<close> returns false); \<open>Retry\<close>, \<open>try\<close> returns
  true, and for \<open>execute\<close> the loop has not ended within the iterations it was given;
  \<open>Panic\<close>, a run-time panic; \<open>Blocked\<close>, it waits for the mutex.
\<close>

datatype outcome = Done state | Retry state | Panic state | Blocked state

fun state_of :: "outcome \<Rightarrow> state" where
  "state_of (Done s) = s"
| "state_of (Retry s) = s"
| "state_of (Panic s) = s"
| "state_of (Blocked s) = s"

text \<open>
  \<open>connection.actions <- req\<close> for the connection at address \<open>i\<close>. Sending on a closed channel
  panics (\<open>None\<close>). The buffer holds one action: when it is full the sender waits until
  the connection's loop has taken the action in it, which needs no lock. The event \<open>Send\<close>
  records the mutex of the state in which the action enters the buffer.
\<close>

definition chan_send :: "('priv, 'pub) env \<Rightarrow> nat \<Rightarrow> Action \<Rightarrow> state \<Rightarrow> state option" where
  "chan_send env i req s =
     (if \<not> i < length (heap s) then None
      else if closed (heap s ! i) then None
      else
        (let s' = (if 1 \<le> length (actions (heap s ! i)) then runLoop_step env i s else s) in
         Some (s'\<lparr>heap := (heap s')[i := (heap s' ! i)\<lparr>actions := actions (heap s' ! i) @ [req]\<rparr>],
                  trace := trace s' @ [Send i (mutex s')]\<rparr>)))"

definition key_of :: "ConnectionInfo \<Rightarrow> ConnectionKey" where
  "key_of info = ConnectionKey (Mailbox info) (PairingPhrase info)"

text \<open>
  The call of \<open>NewConnection\<close> at line 271, in the state \<open>s\<close>: its result, and the event that
  records the mutex of \<open>s\<close>.
\<close>

definition call_NewConnection ::
  "('priv, 'pub) env \<Rightarrow> ConnectionInfo \<Rightarrow> state \<Rightarrow> (error + Connection) \<times> state" where
  "call_NewConnection env info s =
     (NewConnection env info, s\<lparr>trace := trace s @ [Handshake info (mutex s)]\<rparr>)"

text \<open>
  Lines 275-290 at the instant \<open>now\<close>: the timer of the new connection is set, with the
  function that captures \<open>connection\<close> and \<open>info\<close>; the connection object is stored at the
  next free address and installed in the map under the key of \<open>info\<close>; its loop is
  started. The result is the address.
\<close>

definition install ::
  "('priv, 'pub) env \<Rightarrow> int \<Rightarrow> ConnectionInfo \<Rightarrow> Connection \<Rightarrow> state \<Rightarrow> nat \<times> state" where
  "install env now info c s =
     (let connection = length (heap s);
          c' = c\<lparr>timeoutTimer :=
                  Some \<lparr>due = Some (now + LNCD_TIMEOUT env), captured = info\<rparr>\<rparr>
      in (connection,
          s\<lparr>heap := heap s @ [c'],
            connections := fmupd (key_of info) connection (connections s),
            trace := trace s @ [Install (key_of info) (mutex s)]\<rparr>))"

text \<open>
  The function \<open>try\<close> of \<open>execute\<close>, run at the instant \<open>now\<close>. The pointer \<open>connection\<close> is nil
  after a failed \<open>NewConnection\<close>, and line 298 then reads a field of it: a panic.
\<close>

definition try' ::
  "('priv, 'pub) env \<Rightarrow> int \<Rightarrow> ConnectionInfo \<Rightarrow> Action \<Rightarrow> state \<Rightarrow> outcome" where
  "try' env now info req s =
     (let key = key_of info in
      case fmlookup (connections s) key of
        None \<Rightarrow>
          if LNCD_LIMIT_ACTIVE_CONNECTIONS env \<le> int (fcard (fmdom (connections s))) then
            Retry (s\<lparr>trace := trace s @ [OnError (ident req) TooManyActiveConnections]\<rparr>)
          else
            (case call_NewConnection env info s of
               (Inl err, s1) \<Rightarrow> Panic (s1\<lparr>trace := trace s1 @ [OnError (ident req) err]\<rparr>)
             | (Inr c, s1) \<Rightarrow>
                 (case install env now info c s1 of
                    (connection, s2) \<Rightarrow>
                      (case chan_send env connection req s2 of
                         None \<Rightarrow> Panic s2
                       | Some s3 \<Rightarrow> Done s3)))
      | Some connection \<Rightarrow>
          (case chan_send env connection req s of
             None \<Rightarrow> Panic s
           | Some s' \<Rightarrow> Done s'))"

definition Second :: int where
  "Second = 1000000000"

text \<open>
  The loop of \<open>execute\<close> (lines 302-311), for at most \<open>fuel\<close> iterations, the first at the
  instant \<open>now\<close>. A panic leaves the mutex locked: nothing unlocks it.
\<close>

fun execute ::
  "nat \<Rightarrow> ('priv, 'pub) env \<Rightarrow> int \<Rightarrow> ConnectionInfo \<Rightarrow> Action \<Rightarrow> state \<Rightarrow> outcome" where
  "execute 0 env now info req s = Retry s"
| "execute (Suc fuel) env now info req s =
     (if mutex s then Blocked s
      else
        (case try' env now info req (s\<lparr>mutex := True\<rparr>) of
           Retry s' \<Rightarrow>
             execute fuel env (now + Second) info req
               (s'\<lparr>mutex := False, trace := trace s' @ [Sleep]\<rparr>)
         | Done s' \<Rightarrow> Done (s'\<lparr>mutex := False\<rparr>)
         | Panic s' \<Rightarrow> Panic s'
         | Blocked s' \<Rightarrow> Blocked s'))"

section \<open>Close (lines 252-255) and the idle timer (lines 275-288)\<close>

text \<open>
  \<open>Close()\<close> on the connection at address \<open>i\<close>: it closes the channel and the gRPC client.
  Closing a closed channel panics (\<open>None\<close>).
\<close>

definition Close :: "nat \<Rightarrow> state \<Rightarrow> state option" where
  "Close i s =
     (if \<not> i < length (heap s) then None
      else if closed (heap s ! i) then None
      else Some (s\<lparr>heap := (heap s)[i := (heap s ! i)\<lparr>closed := True\<rparr>],
                  trace := trace s @ [Closed i]\<rparr>))"

text \<open>
  The function given to \<open>time.AfterFunc\<close>, with the variables it captures, \<open>connection\<close> and
  \<open>info\<close>, as arguments.
\<close>

definition timeoutFunc ::
  "('priv, 'pub) env \<Rightarrow> int \<Rightarrow> nat \<Rightarrow> ConnectionInfo \<Rightarrow> state \<Rightarrow> outcome" where
  "timeoutFunc env now connection info s =
     (if mutex s then Blocked s
      else if \<not> connection < length (heap s) then Panic (s\<lparr>mutex := True\<rparr>)
      else if length (actions (heap s ! connection)) = 0 then
        (case Close connection (s\<lparr>mutex := True\<rparr>) of
           None \<Rightarrow> Panic (s\<lparr>mutex := True\<rparr>)
         | Some s1 \<Rightarrow>
             Done (s1\<lparr>connections := fmdrop (key_of info) (connections s1), mutex := False\<rparr>))
      else
        (case timeoutTimer (heap s ! connection) of
           None \<Rightarrow> Panic (s\<lparr>mutex := True\<rparr>)
         | Some t \<Rightarrow>
             Done (s\<lparr>heap := (heap s)[connection :=
                             (heap s ! connection)
                               \<lparr>timeoutTimer := Some (t\<lparr>due := Some (now + LNCD_TIMEOUT env)\<rparr>)\<rparr>],
                     mutex := False\<rparr>)))"

text \<open>
  The timer of the connection at address \<open>i\<close> goes off at the instant \<open>now\<close>: it must be set
  and due; it is then no longer set, and its function runs. \<open>None\<close>: the timer does not
  go off.
\<close>

definition timer_fires :: "('priv, 'pub) env \<Rightarrow> int \<Rightarrow> nat \<Rightarrow> state \<Rightarrow> outcome option" where
  "timer_fires env now i s =
     (if i < length (heap s) then
        (case timeoutTimer (heap s ! i) of
           None \<Rightarrow> None
         | Some t \<Rightarrow>
             (case due t of
                None \<Rightarrow> None
              | Some d \<Rightarrow>
                  if d \<le> now then
                    Some (timeoutFunc env now i (captured t)
                            (s\<lparr>heap := (heap s)[i := (heap s ! i)\<lparr>timeoutTimer := Some (t\<lparr>due := None\<rparr>)\<rparr>]\<rparr>))
                  else None))
      else None)"

section \<open>Invariants of the pool\<close>

text \<open>
  Every pointer in the map refers to a connection object that is not closed, whose own
  descriptor has the session key it is stored under, and whose timer function captured
  a descriptor with that key.
\<close>

definition pool_wf :: "state \<Rightarrow> bool" where
  "pool_wf s \<longleftrightarrow>
     (\<forall>k i. fmlookup (connections s) k = Some i \<longrightarrow>
            i < length (heap s) \<and> \<not> closed (heap s ! i)
            \<and> key_of (connInfo (heap s ! i)) = k
            \<and> (\<exists>t. timeoutTimer (heap s ! i) = Some t \<and> key_of (captured t) = k))"

definition sessions_bounded :: "('priv, 'pub) env \<Rightarrow> state \<Rightarrow> bool" where
  "sessions_bounded env s \<longleftrightarrow>
     int (fcard (fmdom (connections s))) \<le> LNCD_LIMIT_ACTIVE_CONNECTIONS env"

text \<open>
  Two entries of the map whose connections have descriptors with the same
  (mailbox, pairing phrase) are one entry, and its connection is live.
\<close>

definition one_session_per_key :: "state \<Rightarrow> bool" where
  "one_session_per_key s \<longleftrightarrow>
     (\<forall>k k' i j. fmlookup (connections s) k = Some i \<longrightarrow> fmlookup (connections s) k' = Some j \<longrightarrow>
        key_of (connInfo (heap s ! i)) = key_of (connInfo (heap s ! j)) \<longrightarrow>
        k = k' \<and> i = j \<and> \<not> closed (heap s ! i))"

definition callbacks_of :: "nat \<Rightarrow> event list \<Rightarrow> event list" where
  "callbacks_of a evs =
     filter (\<lambda>e. case e of OnError b err \<Rightarrow> b = a | OnResponse b info r \<Rightarrow> b = a | _ \<Rightarrow> False) evs"

definition new_events :: "state \<Rightarrow> state \<Rightarrow> event list" where
  "new_events s s' = drop (length (trace s)) (trace s')"

definition pool_ok :: "('priv, 'pub) env \<Rightarrow> state \<Rightarrow> bool" where
  "pool_ok env s \<longleftrightarrow> pool_wf s \<and> sessions_bounded env s"

text \<open>
  The connection objects of \<open>s\<close> are still there in \<open>s'\<close>, each with the same descriptor,
  the same timer and the same \<open>closed\<close> flag.
\<close>

definition objects_kept :: "state \<Rightarrow> state \<Rightarrow> bool" where
  "objects_kept s s' \<longleftrightarrow>
     length (heap s) \<le> length (heap s') \<and>
     (\<forall>j < length (heap s).
        closed (heap s' ! j) = closed (heap s ! j)
        \<and> connInfo (heap s' ! j) = connInfo (heap s ! j)
        \<and> timeoutTimer (heap s' ! j) = timeoutTimer (heap s ! j))"

text \<open>The mutex flags of the \<open>Handshake\<close> events of a trace, in order.\<close>

fun handshake_flags :: "event list \<Rightarrow> bool list" where
  "handshake_flags [] = []"
| "handshake_flags (Handshake info held # evs) = held # handshake_flags evs"
| "handshake_flags (e # evs) = handshake_flags evs"

text \<open>The mutex flags of the \<open>Handshake\<close>, \<open>Install\<close> and \<open>Send\<close> events of a trace, in order.\<close>

fun lock_flags :: "event list \<Rightarrow> bool list" where
  "lock_flags [] = []"
| "lock_flags (Handshake info held # evs) = held # lock_flags evs"
| "lock_flags (Install key held # evs) = held # lock_flags evs"
| "lock_flags (Send i held # evs) = held # lock_flags evs"
| "lock_flags (e # evs) = lock_flags evs"

section \<open>The key package btcec on the curve secp256k1\<close>

text \<open>
  The package \<open>btcec\<close> is external to the repository. The functions below follow what the
  package does with the bytes of a key, so that \<open>parseKeys\<close> can be run on real keys.
  \<open>PrivKeyFromBytes\<close> reads at most 32 bytes as a big-endian number and reduces it modulo
  the group order; it has no failing case. \<open>ParsePubKey\<close> accepts 33 bytes (compressed:
  0x02 or 0x03 and the x coordinate) and 65 bytes (uncompressed: 0x04, or hybrid: 0x06
  or 0x07, and both coordinates), and checks that the point is on the curve
  \<open>y\<^sup>2 = x\<^sup>3 + 7\<close> over the prime field.
\<close>

definition fieldPrime :: int where
  "fieldPrime = 0xFFFFFFFFFFFFFFFFFFFFFFFFFFFFFFFFFFFFFFFFFFFFFFFFFFFFFFFEFFFFFC2F"

definition groupOrder :: int where
  "groupOrder = 0xFFFFFFFFFFFFFFFFFFFFFFFFFFFFFFFEBAAEDCE6AF48A03BBFD25E8CD0364141"

fun be_int :: "int \<Rightarrow> byte list \<Rightarrow> int" where
  "be_int acc [] = acc"
| "be_int acc (b # bs) = be_int (acc * 256 + uint b) bs"

fun be_bytes :: "nat \<Rightarrow> int \<Rightarrow> byte list" where
  "be_bytes 0 v = []"
| "be_bytes (Suc n) v = be_bytes n (v div 256) @ [word_of_int (v mod 256)]"

definition btcec_PrivKeyFromBytes :: "byte list \<Rightarrow> int" where
  "btcec_PrivKeyFromBytes pk = be_int 0 (take 32 pk) mod groupOrder"

definition btcec_Serialize :: "int \<Rightarrow> byte list" where
  "btcec_Serialize k = be_bytes 32 k"

definition isOnCurve :: "int \<Rightarrow> int \<Rightarrow> bool" where
  "isOnCurve x y \<longleftrightarrow> (y * y) mod fieldPrime = (x * x * x + 7) mod fieldPrime"

function modpow :: "int \<Rightarrow> nat \<Rightarrow> int \<Rightarrow> int" where
  "modpow b e m =
     (if e = 0 then 1 mod m
      else (let h = modpow b (e div 2) m; h2 = (h * h) mod m
            in if even e then h2 else (h2 * b) mod m))"
  by pat_completeness auto
termination
  by (relation "measure (\<lambda>(b, e, m). e)") auto

text \<open>
  The y coordinate for an x coordinate, with the wanted oddness: a square root of
  \<open>x\<^sup>3 + 7\<close>, when there is one.
\<close>

definition DecompressY :: "int \<Rightarrow> bool \<Rightarrow> int option" where
  "DecompressY x wantOddY =
     (let c = (x * x * x + 7) mod fieldPrime;
          y = modpow c (nat ((fieldPrime + 1) div 4)) fieldPrime
      in if (y * y) mod fieldPrime \<noteq> c then None
         else if odd y \<noteq> wantOddY then Some ((fieldPrime - y) mod fieldPrime)
         else Some y)"

definition btcec_ParsePubKey :: "byte list \<Rightarrow> error + (int \<times> int)" where
  "btcec_ParsePubKey serialized =
     (if length serialized = 65 then
        (let format = hd serialized;
             x = be_int 0 (take 32 (drop 1 serialized));
             y = be_int 0 (drop 33 serialized)
         in if format \<noteq> 4 \<and> format \<noteq> 6 \<and> format \<noteq> 7
            then Inl (LibraryError ''invalid public key: unsupported format'')
            else if fieldPrime \<le> x
            then Inl (LibraryError ''invalid public key: x >= field prime'')
            else if fieldPrime \<le> y
            then Inl (LibraryError ''invalid public key: y >= field prime'')
            else if (format = 6 \<or> format = 7) \<and> odd y \<noteq> (format = 7)
            then Inl (LibraryError ''invalid public key: y oddness does not match'')
            else if \<not> isOnCurve x y
            then Inl (LibraryError ''invalid public key: not on the curve'')
            else Inr (x, y))
      else if length serialized = 33 then
        (let format = hd serialized;
             x = be_int 0 (drop 1 serialized)
         in if format \<noteq> 2 \<and> format \<noteq> 3
            then Inl (LibraryError ''invalid public key: unsupported format'')
            else if fieldPrime \<le> x
            then Inl (LibraryError ''invalid public key: x >= field prime'')
            else
              (case DecompressY x (format = 3) of
                 None \<Rightarrow> Inl (LibraryError ''invalid public key: not on the curve'')
               | Some y \<Rightarrow> Inr (x, y)))
      else Inl (LibraryError ''malformed public key: invalid length''))"

definition btcec_SerializeCompressed :: "int \<times> int \<Rightarrow> byte list" where
  "btcec_SerializeCompressed key =
     (if odd (snd key) then 3 else 2) # be_bytes 32 (fst key)"

section \<open>Example inputs\<close>

text \<open>
  An environment with a key package that takes keys as their bytes, a peer that delivers
  a macaroon with the capabilities \<open>info:read\<close> and \<open>offchain:*\<close>, one registry method
  \<open>echo\<close>, a decoder that knows two payloads, and room for one connection.
\<close>

definition demo_env :: "(byte list, byte list) env" where
  "demo_env =
     \<lparr>NewPrivateKey = Inr [1],
      PrivKeyFromBytes = (\<lambda>bs. bs),
      ParsePubKey =
        (\<lambda>bs. if length bs = 33 \<and> (hd bs = 2 \<or> hd bs = 3) then Inr bs
              else Inl (LibraryError ''invalid public key'')),
      Serialize = (\<lambda>k. k),
      SerializeCompressed = (\<lambda>k. k),
      NewClientWebsocketConn =
        (\<lambda>mailbox phrase priv remote.
           Inr \<lparr>revealed = None, authdata = Some ''Macaroon: 00'',
                connect_error = None, status = ''Connected''\<rparr>),
      UnmarshalBinary = (\<lambda>bs. Inr (Macaroon [''permissions = info:read,offchain:*''])),
      NewPermissionManager =
        (\<lambda>info. Inr \<lparr>capabilities = {(''info'', ''read''), (''offchain'', ''*'')}\<rparr>),
      LightningJSONCallbacks = [''echo'' \<mapsto> (\<lambda>payload. [(payload, None)])],
      json_Unmarshal =
        (\<lambda>s. if s = ''[info:read,offchain:send,onchain:read]''
              then Inr [''info:read'', ''offchain:send'', ''onchain:read'']
              else if s = ''[bad]'' then Inr [''bad'']
              else Inl (LibraryError ''invalid character'')),
      LNCD_TIMEOUT = 300 * Second,
      LNCD_LIMIT_ACTIVE_CONNECTIONS = 1\<rparr>"

text \<open>
  The same environment with the key package \<open>btcec\<close>; the key that is minted is the
  scalar 1.
\<close>

definition btcec_env :: "(int, int \<times> int) env" where
  "btcec_env =
     \<lparr>NewPrivateKey = Inr 1,
      PrivKeyFromBytes = btcec_PrivKeyFromBytes,
      ParsePubKey = btcec_ParsePubKey,
      Serialize = btcec_Serialize,
      SerializeCompressed = btcec_SerializeCompressed,
      NewClientWebsocketConn =
        (\<lambda>mailbox phrase priv remote.
           Inr \<lparr>revealed = None, authdata = Some ''Macaroon: 00'',
                connect_error = None, status = ''Connected''\<rparr>),
      UnmarshalBinary = (\<lambda>bs. Inr (Macaroon [''permissions = info:read,offchain:*''])),
      NewPermissionManager =
        (\<lambda>info. Inr \<lparr>capabilities = {(''info'', ''read''), (''offchain'', ''*'')}\<rparr>),
      LightningJSONCallbacks = [''echo'' \<mapsto> (\<lambda>payload. [(payload, None)])],
      json_Unmarshal = (\<lambda>s. Inl (LibraryError ''invalid character'')),
      LNCD_TIMEOUT = 300 * Second,
      LNCD_LIMIT_ACTIVE_CONNECTIONS = 1\<rparr>"

text \<open>
  Four keys: a local key of two bytes; the scalar 1 as a local key of 32 bytes; a remote
  key of 33 bytes in compressed form; and the generator of the curve as an uncompressed
  remote key of 65 bytes.
\<close>

definition short_local :: string where
  "short_local = ''0aff''"

definition one_local :: string where
  "one_local = ''0000000000000000000000000000000000000000000000000000000000000001''"

definition compressed_remote :: string where
  "compressed_remote =
     ''02'' @ ''0000000000000000000000000000000000000000000000000000000000000001''"

definition uncompressed_remote :: string where
  "uncompressed_remote =
     ''04'' @ ''79be667ef9dcbbac55a06295ce870b07029bfcdb2dce28d959f2815b16f81798''
           @ ''483ada7726a3c4655da4fbfc0e1108a8fd17b448a68554199c47d08ffb10d4b8''"

definition demo_conn :: Connection where
  "demo_conn =
     \<lparr>connInfo = \<lparr>Mailbox = ''wss://x'', PairingPhrase = ''a b c d'', LocalKey = ''01'',
                   RemoteKey = [], Status = ''Connected'', macaroon = None\<rparr>,
      actions = [], closed = False,
      registry = [''echo'' \<mapsto> (\<lambda>payload. [(payload, None)])],
      timeoutTimer = None,
      perms = \<lparr>capabilities = {(''info'', ''read''), (''offchain'', ''*'')}\<rparr>\<rparr>"

definition demo_checkPerms :: "string \<Rightarrow> Action" where
  "demo_checkPerms p = \<lparr>method = ''checkPerms'', payload = p, ident = 7\<rparr>"

definition demo_infoA :: ConnectionInfo where
  "demo_infoA = \<lparr>Mailbox = ''wss://x'', PairingPhrase = ''a b c d'', LocalKey = [],
                  RemoteKey = [], Status = [], macaroon = None\<rparr>"

definition demo_infoB :: ConnectionInfo where
  "demo_infoB = \<lparr>Mailbox = ''wss://x'', PairingPhrase = ''e f g h'', LocalKey = [],
                  RemoteKey = [], Status = [], macaroon = None\<rparr>"

definition demo_echo :: "nat \<Rightarrow> Action" where
  "demo_echo n = \<lparr>method = ''echo'', payload = ''{}'', ident = n\<rparr>"

text \<open>The pool after a first request for the descriptor \<open>demo_infoA\<close> at the instant 0.\<close>

definition demo_state :: state where
  "demo_state = state_of (execute 1 demo_env 0 demo_infoA (demo_echo 1) NewConnectionPool)"

chapter \<open>Properties\<close>

declare modpow.simps [simp del]

section \<open>Key material\<close>

lemma G_on_curve:
  "isOnCurve 0x79BE667EF9DCBBAC55A06295CE870B07029BFCDB2DCE28D959F2815B16F81798
             0x483ADA7726A3C4655DA4FBFC0E1108A8FD17B448A68554199C47D08FFB10D4B8"
proof -
  let ?x = "0x79BE667EF9DCBBAC55A06295CE870B07029BFCDB2DCE28D959F2815B16F81798 :: int"
  let ?y = "0x483ADA7726A3C4655DA4FBFC0E1108A8FD17B448A68554199C47D08FFB10D4B8 :: int"
  let ?k = "0x1B888E01A06E974017A28A5B4DA436169761C9730B7AEEDF75FC60F6A33CFC7792FE74711F025D590B10E57F1B3A7CE38FFC4C885C515894B45C19C9F413E5E9 :: int"
  have "?x * ?x * ?x + 7 = ?y * ?y + ?k * fieldPrime"
    by (simp add: fieldPrime_def)
  then have "(?x * ?x * ?x + 7) mod fieldPrime = (?y * ?y + ?k * fieldPrime) mod fieldPrime"
    by (rule arg_cong)
  also have "\<dots> = (?y * ?y) mod fieldPrime"
    by (rule mod_mult_self1)
  finally show ?thesis by (simp only: isOnCurve_def)
qed

lemma parseKeys_local_only:
  "localHex \<noteq> [] \<Longrightarrow>
   parseKeys env localHex [] =
     (case hex_DecodeString localHex of
        Inl err \<Rightarrow> Inl err
      | Inr bs \<Rightarrow> Inr (PrivKeyFromBytes env bs, None))"
  by (simp add: parseKeys_def)

lemma parseKeys_both:
  "remoteHex \<noteq> [] \<Longrightarrow>
   parseKeys env localHex remoteHex =
     (case hex_DecodeString localHex of
        Inl err \<Rightarrow> Inl err
      | Inr bs \<Rightarrow>
          (case hex_DecodeString remoteHex of
             Inl err \<Rightarrow> Inl err
           | Inr rbs \<Rightarrow>
               (case ParsePubKey env rbs of
                  Inl err \<Rightarrow> Inl err
                | Inr pk \<Rightarrow> Inr (PrivKeyFromBytes env bs, Some pk))))"
  by (simp add: parseKeys_def)

lemma decode_short_local: "hex_DecodeString short_local = Inr [0x0a, 0xff]"
  by (simp add: short_local_def fromHexChar_def)

lemma decode_one_local: "hex_DecodeString one_local = Inr (replicate 31 0 @ [1])"
  by (simp add: one_local_def fromHexChar_def numeral_eq_Suc)

lemma decode_uncompressed_remote:
  "hex_DecodeString uncompressed_remote =
     Inr [0x04,
          0x79, 0xbe, 0x66, 0x7e, 0xf9, 0xdc, 0xbb, 0xac, 0x55, 0xa0, 0x62, 0x95, 0xce, 0x87,
          0x0b, 0x07, 0x02, 0x9b, 0xfc, 0xdb, 0x2d, 0xce, 0x28, 0xd9, 0x59, 0xf2, 0x81, 0x5b,
          0x16, 0xf8, 0x17, 0x98,
          0x48, 0x3a, 0xda, 0x77, 0x26, 0xa3, 0xc4, 0x65, 0x5d, 0xa4, 0xfb, 0xfc, 0x0e, 0x11,
          0x08, 0xa8, 0xfd, 0x17, 0xb4, 0x48, 0xa6, 0x85, 0x54, 0x19, 0x9c, 0x47, 0xd0, 0x8f,
          0xfb, 0x10, 0xd4, 0xb8]"
  by (simp add: uncompressed_remote_def fromHexChar_def)

lemma parse_uncompressed_remote:
  "btcec_ParsePubKey
     [0x04,
      0x79, 0xbe, 0x66, 0x7e, 0xf9, 0xdc, 0xbb, 0xac, 0x55, 0xa0, 0x62, 0x95, 0xce, 0x87,
      0x0b, 0x07, 0x02, 0x9b, 0xfc, 0xdb, 0x2d, 0xce, 0x28, 0xd9, 0x59, 0xf2, 0x81, 0x5b,
      0x16, 0xf8, 0x17, 0x98,
      0x48, 0x3a, 0xda, 0x77, 0x26, 0xa3, 0xc4, 0x65, 0x5d, 0xa4, 0xfb, 0xfc, 0x0e, 0x11,
      0x08, 0xa8, 0xfd, 0x17, 0xb4, 0x48, 0xa6, 0x85, 0x54, 0x19, 0x9c, 0x47, 0xd0, 0x8f,
      0xfb, 0x10, 0xd4, 0xb8]
   = Inr (0x79BE667EF9DCBBAC55A06295CE870B07029BFCDB2DCE28D959F2815B16F81798,
          0x483ADA7726A3C4655DA4FBFC0E1108A8FD17B448A68554199C47D08FFB10D4B8)"
  using G_on_curve by (simp add: btcec_ParsePubKey_def fieldPrime_def)

text \<open>
  C7 as stated fails, twice. A local key of two bytes is accepted and a private key is
  derived from it: nothing checks that the local key is a 32-byte scalar. And with the key
  package \<open>btcec\<close> the generator of the curve in uncompressed form, 65 bytes that start with
  0x04, is accepted as the remote key: nothing checks that the remote key is a compressed
  point. In both cases the parser of the specification answers \<open>BadKey\<close>.
\<close>

theorem parseKeys_shape_counterexample:
  "parseKeys_spec btcec_env short_local [] = Some (Inl BadKey)
   \<and> parseKeys btcec_env short_local [] = Inr (0x0aff, None)
   \<and> parseKeys_spec btcec_env one_local uncompressed_remote = Some (Inl BadKey)
   \<and> parseKeys btcec_env one_local uncompressed_remote =
       Inr (1, Some (0x79BE667EF9DCBBAC55A06295CE870B07029BFCDB2DCE28D959F2815B16F81798,
                     0x483ADA7726A3C4655DA4FBFC0E1108A8FD17B448A68554199C47D08FFB10D4B8))"
proof -
  have l: "short_local \<noteq> []" "one_local \<noteq> []" and r: "uncompressed_remote \<noteq> []"
    by (simp_all add: short_local_def one_local_def uncompressed_remote_def)
  have a: "parseKeys_spec btcec_env short_local [] = Some (Inl BadKey)"
    using l by (simp add: parseKeys_spec_def spec_scalar_def decode_short_local)
  have b: "parseKeys btcec_env short_local [] = Inr (0x0aff, None)"
    using l by (simp add: parseKeys_local_only decode_short_local btcec_env_def
                  btcec_PrivKeyFromBytes_def groupOrder_def)
  have c: "parseKeys_spec btcec_env one_local uncompressed_remote = Some (Inl BadKey)"
    using l r
    by (simp add: parseKeys_spec_def spec_scalar_def spec_point_def decode_one_local
          decode_uncompressed_remote compressed_form_def)
  have one: "btcec_PrivKeyFromBytes (replicate 31 0 @ [1]) = 1"
    by (simp add: btcec_PrivKeyFromBytes_def groupOrder_def numeral_eq_Suc)
  have d: "parseKeys btcec_env one_local uncompressed_remote =
       Inr (1, Some (0x79BE667EF9DCBBAC55A06295CE870B07029BFCDB2DCE28D959F2815B16F81798,
                     0x483ADA7726A3C4655DA4FBFC0E1108A8FD17B448A68554199C47D08FFB10D4B8))"
    using r
    by (simp add: parseKeys_both decode_one_local decode_uncompressed_remote btcec_env_def
          parse_uncompressed_remote one)
  from a b c d show ?thesis by blast
qed

text \<open>
  C7, amended. \<open>parseKeys\<close> has exactly three cases, decided by which inputs are empty:
  with both empty it mints a fresh private key, with no remote point; with only the
  remote key empty it hex-decodes the local key and derives the private key from the
  decoded bytes, however many they are, with no remote point; with both present it
  hex-decodes both, derives the private key from the local bytes, however many they are,
  and has the remote bytes validated by \<open>ParsePubKey\<close> of the key package, in whatever form
  that accepts; it fails whenever a hex decoding or that validation fails. Where the
  keys have the shape the specification gives them (a local key of 32 bytes, a remote key
  of 33 bytes that start with 0x02 or 0x03) it does what the three cases of the
  specification say, every failure being a \<open>BadKey\<close>.
\<close>

theorem parseKeys_cases:
  "parseKeys env [] [] =
     (case NewPrivateKey env of Inl err \<Rightarrow> Inl err | Inr privKey \<Rightarrow> Inr (privKey, None))
   \<and> (localHex \<noteq> [] \<longrightarrow>
        parseKeys env localHex [] =
          (case hex_DecodeString localHex of
             Inl err \<Rightarrow> Inl err
           | Inr bs \<Rightarrow> Inr (PrivKeyFromBytes env bs, None)))
   \<and> (localHex \<noteq> [] \<and> remoteHex \<noteq> [] \<longrightarrow>
        parseKeys env localHex remoteHex =
          (case hex_DecodeString localHex of
             Inl err \<Rightarrow> Inl err
           | Inr bs \<Rightarrow>
               (case hex_DecodeString remoteHex of
                  Inl err \<Rightarrow> Inl err
                | Inr rbs \<Rightarrow>
                    (case ParsePubKey env rbs of
                       Inl err \<Rightarrow> Inl err
                     | Inr pk \<Rightarrow> Inr (PrivKeyFromBytes env bs, Some pk)))))
   \<and> (parseKeys_spec env localHex remoteHex = Some r \<and> shaped localHex remoteHex \<longrightarrow>
        as_BadKey (parseKeys env localHex remoteHex) = r)"
proof -
  have mint: "parseKeys env [] [] =
     (case NewPrivateKey env of Inl err \<Rightarrow> Inl err | Inr privKey \<Rightarrow> Inr (privKey, None))"
    by (simp add: parseKeys_def)
  have refines: "as_BadKey (parseKeys env localHex remoteHex) = r"
    if spec: "parseKeys_spec env localHex remoteHex = Some r"
      and shape: "shaped localHex remoteHex"
  proof (cases "remoteHex = []")
    case True
    show ?thesis
    proof (cases "localHex = []")
      case True
      with \<open>remoteHex = []\<close> spec mint show ?thesis
        by (auto simp: parseKeys_spec_def as_BadKey_def split: sum.splits)
    next
      case False
      with True spec shape show ?thesis
        by (auto simp: parseKeys_spec_def parseKeys_local_only spec_scalar_def shaped_def
              as_BadKey_def split: sum.splits)
    qed
  next
    case False
    with spec have l: "localHex \<noteq> []"
      by (auto simp: parseKeys_spec_def split: if_splits)
    with False spec shape show ?thesis
      by (auto simp: parseKeys_spec_def parseKeys_both spec_scalar_def spec_point_def
            shaped_def as_BadKey_def split: sum.splits if_splits)
  qed
  from mint refines show ?thesis
    by (simp add: parseKeys_local_only parseKeys_both)
qed

theorem parseKeys_cases_witness:
  "one_local \<noteq> [] \<and> compressed_remote \<noteq> []
   \<and> shaped one_local [] \<and> shaped one_local compressed_remote
   \<and> parseKeys_spec btcec_env one_local [] = Some (Inr (1, None))
   \<and> parseKeys btcec_env one_local [] = Inr (1, None)
   \<and> parseKeys_spec demo_env one_local compressed_remote =
       Some (Inr (replicate 31 0 @ [1], Some (2 # replicate 31 0 @ [1])))
   \<and> parseKeys demo_env one_local compressed_remote =
       Inr (replicate 31 0 @ [1], Some (2 # replicate 31 0 @ [1]))"
proof -
  have l: "one_local \<noteq> []" and r: "compressed_remote \<noteq> []"
    by (simp_all add: one_local_def compressed_remote_def)
  have dr: "hex_DecodeString compressed_remote = Inr (2 # replicate 31 0 @ [1])"
    by (simp add: compressed_remote_def fromHexChar_def numeral_eq_Suc)
  have s1: "shaped one_local []"
    and s2: "shaped one_local compressed_remote"
    by (simp_all add: shaped_def decode_one_local dr compressed_form_def)
  have one: "btcec_PrivKeyFromBytes (replicate 31 0 @ [1]) = 1"
    by (simp add: btcec_PrivKeyFromBytes_def groupOrder_def numeral_eq_Suc)
  have a: "parseKeys_spec btcec_env one_local [] = Some (Inr (1, None))"
    using l by (simp add: parseKeys_spec_def spec_scalar_def decode_one_local btcec_env_def one)
  have b: "parseKeys_spec demo_env one_local compressed_remote =
       Some (Inr (replicate 31 0 @ [1], Some (2 # replicate 31 0 @ [1])))"
    using l r
    by (simp add: parseKeys_spec_def spec_scalar_def spec_point_def decode_one_local dr
          compressed_form_def demo_env_def)
  from parseKeys_cases [of btcec_env one_local "[]" "Inr (1, None)"] a s1
  have "as_BadKey (parseKeys btcec_env one_local []) = Inr (1, None)" by blast
  then have c: "parseKeys btcec_env one_local [] = Inr (1, None)"
    by (simp add: as_BadKey_def split: sum.splits)
  from parseKeys_cases [of demo_env one_local compressed_remote
       "Inr (replicate 31 0 @ [1], Some (2 # replicate 31 0 @ [1]))"] b s2
  have "as_BadKey (parseKeys demo_env one_local compressed_remote) =
          Inr (replicate 31 0 @ [1], Some (2 # replicate 31 0 @ [1]))" by blast
  then have d: "parseKeys demo_env one_local compressed_remote =
          Inr (replicate 31 0 @ [1], Some (2 # replicate 31 0 @ [1]))"
    by (simp add: as_BadKey_def split: sum.splits)
  from l r s1 s2 a b c d show ?thesis by blast
qed

text \<open>
  C10. With an empty local key and a remote key present, \<open>parseKeys\<close> takes its last
  branch: the empty string decodes to no bytes, the private key is derived from them
  (no key is minted, and the empty local key is no error), and the remote key is still
  decoded and validated.
\<close>

theorem parseKeys_empty_local:
  "remotePubKey \<noteq> [] \<Longrightarrow>
   hex_DecodeString [] = Inr [] \<and>
   parseKeys env [] remotePubKey =
     (case hex_DecodeString remotePubKey of
        Inl err \<Rightarrow> Inl err
      | Inr remoteKeyBytes \<Rightarrow>
          (case ParsePubKey env remoteKeyBytes of
             Inl err \<Rightarrow> Inl err
           | Inr remoteStaticKey \<Rightarrow> Inr (PrivKeyFromBytes env [], Some remoteStaticKey)))"
  by (simp add: parseKeys_def)

theorem parseKeys_empty_local_witness:
  "''02'' \<noteq> [] \<and> ''zz'' \<noteq> []
   \<and> parseKeys demo_env [] ''02'' = Inl (LibraryError ''invalid public key'')
   \<and> parseKeys demo_env [] ''zz'' = Inl (InvalidByteError CHR ''z'')
   \<and> parseKeys (demo_env\<lparr>ParsePubKey := Inr\<rparr>) [] ''02'' = Inr ([], Some [2])"
proof -
  have a: "''02'' \<noteq> []" and b: "''zz'' \<noteq> []" by simp_all
  from parseKeys_empty_local [OF a, of demo_env] parseKeys_empty_local [OF b, of demo_env]
    parseKeys_empty_local [OF a, of "demo_env\<lparr>ParsePubKey := Inr\<rparr>"]
  show ?thesis by (simp add: demo_env_def fromHexChar_def)
qed

section \<open>Dispatch loop\<close>

lemma check_update:
  "(case check pm p of Inl err \<Rightarrow> valid[i := False] | Inr a \<Rightarrow> valid[i := a])
     = valid[i := (case check pm p of Inl err \<Rightarrow> False | Inr a \<Rightarrow> a)]"
  by (simp split: sum.splits)

lemma check_permitted:
  "(case check pm p of Inl err \<Rightarrow> False | Inr a \<Rightarrow> a) = permitted (capabilities pm) p"
  by (simp add: check_def permitted_def split: option.splits)

lemma length_check_loop: "length (check_loop pm i ps valid) = length valid"
  by (induction ps arbitrary: i valid) (simp_all add: check_update)

lemma check_loop_nth:
  "i + length ps \<le> length valid \<Longrightarrow> j < length valid \<Longrightarrow>
   check_loop pm i ps valid ! j =
     (if i \<le> j \<and> j < i + length ps
      then (case check pm (ps ! (j - i)) of Inl err \<Rightarrow> False | Inr a \<Rightarrow> a)
      else valid ! j)"
proof (induction ps arbitrary: i valid)
  case Nil
  then show ?case by auto
next
  case (Cons p ps)
  then show ?case
    by (auto simp: check_update nth_list_update nth_Cons' Suc_diff_le)
qed

lemma check_loop_map:
  "check_loop pm 0 ps (replicate (length ps) False)
     = map (\<lambda>p. case check pm p of Inl err \<Rightarrow> False | Inr a \<Rightarrow> a) ps"
  by (rule nth_equalityI) (simp_all add: length_check_loop check_loop_nth)

lemma checkPerms_body:
  "method req = ''checkPerms'' \<Longrightarrow>
   runLoop_body env conn req =
     (case json_Unmarshal env (payload req) of
        Inl err \<Rightarrow> [OnError (ident req) err]
      | Inr permissions \<Rightarrow>
          [OnResponse (ident req) (connInfo conn)
             (json_bools (map (\<lambda>p. case check (perms conn) p of Inl err \<Rightarrow> False | Inr a \<Rightarrow> a)
                          permissions))])"
  by (simp add: runLoop_body_def check_loop_map json_Marshal_def split: sum.splits)

text \<open>
  C4 as stated fails: a request that \<open>check\<close> rejects is answered through \<open>onResponse\<close>,
  with \<open>false\<close> in its place, and \<open>onError\<close> is not called.
\<close>

theorem checkPerms_check_failure_counterexample:
  "method (demo_checkPerms ''[bad]'') = ''checkPerms''
   \<and> json_Unmarshal demo_env (payload (demo_checkPerms ''[bad]'')) = Inr [''bad'']
   \<and> check (perms demo_conn) ''bad'' = Inl BadPermissionFormat
   \<and> runLoop_body demo_env demo_conn (demo_checkPerms ''[bad]'')
       = [OnResponse 7 (connInfo demo_conn) ''[false]'']"
  by (simp add: runLoop_body_def demo_checkPerms_def demo_env_def check_def
        parse_permission_def json_Marshal_def json_bools_def)

text \<open>
  C4, amended. For a \<open>checkPerms\<close> action, a payload that does not parse causes exactly one
  call of \<open>onError\<close> and none of \<open>onResponse\<close>. A payload that parses causes exactly one call
  of \<open>onResponse\<close> and none of \<open>onError\<close>, whatever \<open>check\<close> returns: a permission whose check
  fails is reported as \<open>false\<close>.
\<close>

theorem checkPerms_failures:
  assumes "method req = ''checkPerms''"
  shows "(json_Unmarshal env (payload req) = Inl err \<longrightarrow>
            runLoop_body env conn req = [OnError (ident req) err])
         \<and> (json_Unmarshal env (payload req) = Inr permissions \<longrightarrow>
            runLoop_body env conn req =
              [OnResponse (ident req) (connInfo conn)
                 (json_bools (map (\<lambda>p. case check (perms conn) p of
                                          Inl e \<Rightarrow> False | Inr a \<Rightarrow> a) permissions))])"
  using assms by (simp add: checkPerms_body)

theorem checkPerms_failures_witness:
  "method (demo_checkPerms ''{}'') = ''checkPerms''
   \<and> json_Unmarshal demo_env (payload (demo_checkPerms ''{}''))
       = Inl (LibraryError ''invalid character'')
   \<and> runLoop_body demo_env demo_conn (demo_checkPerms ''{}'')
       = [OnError 7 (LibraryError ''invalid character'')]
   \<and> method (demo_checkPerms ''[bad]'') = ''checkPerms''
   \<and> json_Unmarshal demo_env (payload (demo_checkPerms ''[bad]'')) = Inr [''bad'']
   \<and> runLoop_body demo_env demo_conn (demo_checkPerms ''[bad]'')
       = [OnResponse 7 (connInfo demo_conn) ''[false]'']"
proof -
  have m1: "method (demo_checkPerms ''{}'') = ''checkPerms''"
    and m2: "method (demo_checkPerms ''[bad]'') = ''checkPerms''"
    by (simp_all add: demo_checkPerms_def)
  have u1: "json_Unmarshal demo_env (payload (demo_checkPerms ''{}''))
              = Inl (LibraryError ''invalid character'')"
    and u2: "json_Unmarshal demo_env (payload (demo_checkPerms ''[bad]'')) = Inr [''bad'']"
    by (simp_all add: demo_checkPerms_def demo_env_def)
  have c: "check (perms demo_conn) ''bad'' = Inl BadPermissionFormat"
    by (simp add: check_def parse_permission_def)
  from checkPerms_failures [OF m1, where env = demo_env and conn = demo_conn
         and err = "LibraryError ''invalid character''"]
    checkPerms_failures [OF m2, where env = demo_env and conn = demo_conn
         and permissions = "[''bad'']"] m1 m2 u1 u2 c
  show ?thesis by (simp add: json_bools_def demo_checkPerms_def)
qed

text \<open>
  C8. For a \<open>checkPerms\<close> action whose payload parses as a list of \<open>n\<close> permission strings,
  the loop calls \<open>onResponse\<close> once, with the JSON array of the \<open>n\<close> booleans in the order of
  the requests, the \<open>i\<close>-th being true iff the \<open>i\<close>-th request is permitted by the connection's
  capability set.
\<close>

theorem checkPerms_response:
  assumes "method req = ''checkPerms''"
    and "json_Unmarshal env (payload req) = Inr permissions"
  shows "runLoop_body env conn req =
           [OnResponse (ident req) (connInfo conn)
              (json_bools (map (permitted (capabilities (perms conn))) permissions))]"
  using assms by (simp add: checkPerms_body check_permitted)

theorem checkPerms_response_witness:
  "method (demo_checkPerms ''[info:read,offchain:send,onchain:read]'') = ''checkPerms''
   \<and> json_Unmarshal demo_env (payload (demo_checkPerms ''[info:read,offchain:send,onchain:read]''))
       = Inr [''info:read'', ''offchain:send'', ''onchain:read'']
   \<and> runLoop_body demo_env demo_conn (demo_checkPerms ''[info:read,offchain:send,onchain:read]'')
       = [OnResponse 7 (connInfo demo_conn) ''[true,true,false]'']"
proof -
  let ?req = "demo_checkPerms ''[info:read,offchain:send,onchain:read]''"
  have m: "method ?req = ''checkPerms''"
    by (simp add: demo_checkPerms_def)
  have u: "json_Unmarshal demo_env (payload ?req)
             = Inr [''info:read'', ''offchain:send'', ''onchain:read'']"
    by (simp add: demo_env_def demo_checkPerms_def)
  have p: "map (permitted (capabilities (perms demo_conn)))
             [''info:read'', ''offchain:send'', ''onchain:read''] = [True, True, False]"
    by (simp add: permitted_def parse_permission_def demo_conn_def)
  from checkPerms_response [OF m u, of demo_conn, unfolded p] m u show ?thesis
    by (simp add: json_bools_def demo_checkPerms_def)
qed

text \<open>
  C9. An action whose method is neither \<open>checkPerms\<close> nor a key of the registry causes no
  event: no registry function runs, and neither \<open>onResponse\<close> nor \<open>onError\<close> is called.
\<close>

theorem unknown_method_silent:
  "method req \<noteq> ''checkPerms'' \<Longrightarrow> registry conn (method req) = None \<Longrightarrow>
   runLoop_body env conn req = []"
  by (simp add: runLoop_body_def)

theorem unknown_method_silent_witness:
  "method \<lparr>method = ''nope'', payload = ''{}'', ident = 3\<rparr> \<noteq> ''checkPerms''
   \<and> registry demo_conn (method \<lparr>method = ''nope'', payload = ''{}'', ident = 3\<rparr>) = None
   \<and> runLoop_body demo_env demo_conn \<lparr>method = ''nope'', payload = ''{}'', ident = 3\<rparr> = []"
proof -
  let ?req = "\<lparr>method = ''nope'', payload = ''{}'', ident = 3\<rparr>"
  have a: "method ?req \<noteq> ''checkPerms''" by simp
  have b: "registry demo_conn (method ?req) = None" by (simp add: demo_conn_def)
  from unknown_method_silent [OF a b, of demo_env] a b show ?thesis by simp
qed


section \<open>What sending and dispatching leave unchanged\<close>

lemma objects_kept_refl: "objects_kept s s"
  by (simp add: objects_kept_def)

lemma objects_kept_trans:
  "objects_kept s s' \<Longrightarrow> objects_kept s' s'' \<Longrightarrow> objects_kept s s''"
  by (auto simp: objects_kept_def)

lemma objects_kept_actions:
  "objects_kept s (s\<lparr>heap := (heap s)[i := (heap s ! i)\<lparr>actions := q\<rparr>]\<rparr>)"
proof -
  have "closed ((heap s)[i := (heap s ! i)\<lparr>actions := q\<rparr>] ! j) = closed (heap s ! j)
        \<and> connInfo ((heap s)[i := (heap s ! i)\<lparr>actions := q\<rparr>] ! j) = connInfo (heap s ! j)
        \<and> timeoutTimer ((heap s)[i := (heap s ! i)\<lparr>actions := q\<rparr>] ! j)
            = timeoutTimer (heap s ! j)"
    if "j < length (heap s)" for j
    using that by (cases "i = j") simp_all
  then show ?thesis by (simp add: objects_kept_def)
qed

lemma runLoop_step_kept: "objects_kept s (runLoop_step env i s)"
proof (cases "i < length (heap s)")
  case True
  show ?thesis
  proof (cases "actions (heap s ! i)")
    case Nil
    with True show ?thesis by (simp add: runLoop_step_def objects_kept_refl)
  next
    case (Cons req rest)
    from objects_kept_actions [of s i rest]
    have "objects_kept s (s\<lparr>heap := (heap s)[i := (heap s ! i)\<lparr>actions := rest\<rparr>],
                            trace := trace s @ runLoop_body env (heap s ! i) req\<rparr>)"
      by (simp add: objects_kept_def)
    with True Cons show ?thesis by (simp add: runLoop_step_def)
  qed
next
  case False
  then show ?thesis by (simp add: runLoop_step_def objects_kept_refl)
qed

lemma runLoop_step_pool:
  "connections (runLoop_step env i s) = connections s"
  "mutex (runLoop_step env i s) = mutex s"
  "length (heap (runLoop_step env i s)) = length (heap s)"
  by (simp_all add: runLoop_step_def split: list.splits)

lemma objects_kept_upd [simp]:
  "objects_kept s (s'\<lparr>mutex := b\<rparr>) = objects_kept s s'"
  "objects_kept s (s'\<lparr>trace := t\<rparr>) = objects_kept s s'"
  "objects_kept s (s'\<lparr>connections := m\<rparr>) = objects_kept s s'"
  "objects_kept (s\<lparr>mutex := b\<rparr>) s' = objects_kept s s'"
  "objects_kept (s\<lparr>trace := t\<rparr>) s' = objects_kept s s'"
  "objects_kept (s\<lparr>connections := m\<rparr>) s' = objects_kept s s'"
  by (simp_all add: objects_kept_def)

lemma chan_send_eq:
  "chan_send env i req s = Some s' \<Longrightarrow>
   \<exists>s1. (s1 = s \<or> s1 = runLoop_step env i s)
        \<and> s' = s1\<lparr>heap := (heap s1)[i := (heap s1 ! i)\<lparr>actions := actions (heap s1 ! i) @ [req]\<rparr>],
                  trace := trace s1 @ [Send i (mutex s1)]\<rparr>"
  by (auto simp: chan_send_def Let_def split: if_splits)

lemma chan_send_kept:
  assumes "chan_send env i req s = Some s'"
  shows "objects_kept s s'"
proof -
  from chan_send_eq [OF assms] obtain s1
    where s1: "s1 = s \<or> s1 = runLoop_step env i s"
      and s': "s' = s1\<lparr>heap := (heap s1)[i := (heap s1 ! i)\<lparr>actions := actions (heap s1 ! i) @ [req]\<rparr>],
                     trace := trace s1 @ [Send i (mutex s1)]\<rparr>"
    by blast
  from s1 have "objects_kept s s1"
    by (auto simp: objects_kept_refl runLoop_step_kept)
  moreover from s' objects_kept_actions [of s1 i "actions (heap s1 ! i) @ [req]"]
  have "objects_kept s1 s'"
    by simp
  ultimately show ?thesis by (rule objects_kept_trans)
qed

lemma chan_send_pool:
  assumes "chan_send env i req s = Some s'"
  shows "connections s' = connections s" and "mutex s' = mutex s"
    and "length (heap s') = length (heap s)"
  using chan_send_eq [OF assms] by (auto simp: runLoop_step_pool)

lemma pool_ok_kept:
  assumes "objects_kept s s'" and "connections s' = connections s" and "pool_ok env s"
  shows "pool_ok env s'"
proof -
  have "i < length (heap s') \<and> \<not> closed (heap s' ! i)
        \<and> key_of (connInfo (heap s' ! i)) = k
        \<and> (\<exists>t. timeoutTimer (heap s' ! i) = Some t \<and> key_of (captured t) = k)"
    if "fmlookup (connections s) k = Some i" for k i
  proof -
    from that assms(3) have old: "i < length (heap s)" "\<not> closed (heap s ! i)"
      "key_of (connInfo (heap s ! i)) = k"
      "\<exists>t. timeoutTimer (heap s ! i) = Some t \<and> key_of (captured t) = k"
      by (auto simp: pool_ok_def pool_wf_def)
    with assms(1) show ?thesis by (auto simp: objects_kept_def)
  qed
  with assms show ?thesis
    by (simp add: pool_ok_def pool_wf_def sessions_bounded_def)
qed

lemma pool_ok_trace [simp]: "pool_ok env (s\<lparr>trace := t\<rparr>) = pool_ok env s"
  by (simp add: pool_ok_def pool_wf_def sessions_bounded_def)

lemma pool_ok_mutex [simp]: "pool_ok env (s\<lparr>mutex := b\<rparr>) = pool_ok env s"
  by (simp add: pool_ok_def pool_wf_def sessions_bounded_def)

lemma NewConnection_Inr:
  assumes "NewConnection env info = Inr c"
  shows "key_of (connInfo c) = key_of info \<and> \<not> closed c \<and> actions c = []
         \<and> timeoutTimer c = None"
  using assms
  by (auto simp: NewConnection_def Let_def key_of_def
           split: sum.splits prod.splits option.splits)

section \<open>The invariants of the pool\<close>

lemma pool_ok_install:
  assumes ok: "pool_ok env s"
    and absent: "fmlookup (connections s) (key_of info) = None"
    and room: "\<not> LNCD_LIMIT_ACTIVE_CONNECTIONS env \<le> int (fcard (fmdom (connections s)))"
    and c: "key_of (connInfo c) = key_of info" "\<not> closed c"
           "timeoutTimer c = Some t" "key_of (captured t) = key_of info"
  shows "pool_ok env (s\<lparr>heap := heap s @ [c],
                        connections := fmupd (key_of info) (length (heap s)) (connections s)\<rparr>)"
proof -
  from ok have old: "\<And>k i. fmlookup (connections s) k = Some i \<Longrightarrow>
                i < length (heap s) \<and> \<not> closed (heap s ! i)
                \<and> key_of (connInfo (heap s ! i)) = k
                \<and> (\<exists>t. timeoutTimer (heap s ! i) = Some t \<and> key_of (captured t) = k)"
    by (auto simp: pool_ok_def pool_wf_def)
  from absent have "key_of info |\<notin>| fmdom (connections s)" by (rule fmdom_notI)
  then have "fcard (finsert (key_of info) (fmdom (connections s))) = Suc (fcard (fmdom (connections s)))"
    by (rule fcard_finsert_disjoint)
  with room have bound: "int (fcard (finsert (key_of info) (fmdom (connections s))))
                          \<le> LNCD_LIMIT_ACTIVE_CONNECTIONS env"
    by simp
  have entry: "i < length (heap s @ [c]) \<and> \<not> closed ((heap s @ [c]) ! i)
                \<and> key_of (connInfo ((heap s @ [c]) ! i)) = k
                \<and> (\<exists>t. timeoutTimer ((heap s @ [c]) ! i) = Some t \<and> key_of (captured t) = k)"
    if "fmlookup (fmupd (key_of info) (length (heap s)) (connections s)) k = Some i" for k i
  proof (cases "k = key_of info")
    case True
    with that c show ?thesis by auto
  next
    case False
    with that have "fmlookup (connections s) k = Some i" by simp
    from old [OF this] show ?thesis by (simp add: nth_append)
  qed
  show ?thesis
    unfolding pool_ok_def pool_wf_def sessions_bounded_def
    using bound entry by simp
qed

text \<open>The three ways \<open>try\<close> can go when the key is not in the map, and the one when it is.\<close>

lemma try'_present:
  "fmlookup (connections s) (key_of info) = Some i \<Longrightarrow>
   try' env now info req s =
     (case chan_send env i req s of None \<Rightarrow> Panic s | Some s' \<Rightarrow> Done s')"
  by (simp add: try'_def)

lemma try'_full:
  "fmlookup (connections s) (key_of info) = None \<Longrightarrow>
   LNCD_LIMIT_ACTIVE_CONNECTIONS env \<le> int (fcard (fmdom (connections s))) \<Longrightarrow>
   try' env now info req s =
     Retry (s\<lparr>trace := trace s @ [OnError (ident req) TooManyActiveConnections]\<rparr>)"
  by (simp add: try'_def)

lemma try'_failed:
  "fmlookup (connections s) (key_of info) = None \<Longrightarrow>
   \<not> LNCD_LIMIT_ACTIVE_CONNECTIONS env \<le> int (fcard (fmdom (connections s))) \<Longrightarrow>
   NewConnection env info = Inl err \<Longrightarrow>
   try' env now info req s =
     Panic (s\<lparr>trace := trace s @ [Handshake info (mutex s), OnError (ident req) err]\<rparr>)"
  by (simp add: try'_def call_NewConnection_def)

lemma try'_created:
  assumes "fmlookup (connections s) (key_of info) = None"
    and "\<not> LNCD_LIMIT_ACTIVE_CONNECTIONS env \<le> int (fcard (fmdom (connections s)))"
    and "NewConnection env info = Inr c"
    and "s1 = s\<lparr>trace := trace s @ [Handshake info (mutex s)]\<rparr>"
    and "c' = c\<lparr>timeoutTimer := Some \<lparr>due = Some (now + LNCD_TIMEOUT env), captured = info\<rparr>\<rparr>"
    and "s2 = s1\<lparr>heap := heap s1 @ [c'],
                  connections := fmupd (key_of info) (length (heap s1)) (connections s1),
                  trace := trace s1 @ [Install (key_of info) (mutex s1)]\<rparr>"
  shows "try' env now info req s =
           (case chan_send env (length (heap s)) req s2 of
              None \<Rightarrow> Panic s2 | Some s3 \<Rightarrow> Done s3)"
  using assms
  by (simp add: try'_def call_NewConnection_def install_def Let_def split: option.split)

lemma try'_pool_ok:
  assumes "pool_ok env s"
  shows "pool_ok env (state_of (try' env now info req s))"
proof (cases "fmlookup (connections s) (key_of info)")
  case (Some i)
  show ?thesis
  proof (cases "chan_send env i req s")
    case None
    with Some assms show ?thesis by (simp add: try'_present)
  next
    case (Some s')
    from chan_send_kept [OF Some] chan_send_pool(1) [OF Some] assms
    have "pool_ok env s'" by (rule pool_ok_kept)
    with Some \<open>fmlookup (connections s) (key_of info) = Some i\<close>
    show ?thesis by (simp add: try'_present)
  qed
next
  case None
  show ?thesis
  proof (cases "LNCD_LIMIT_ACTIVE_CONNECTIONS env \<le> int (fcard (fmdom (connections s)))")
    case True
    with None assms show ?thesis by (simp add: try'_full)
  next
    case False
    show ?thesis
    proof (cases "NewConnection env info")
      case (Inl err)
      with None False assms show ?thesis by (simp add: try'_failed)
    next
      case (Inr c)
      define s1 where "s1 = s\<lparr>trace := trace s @ [Handshake info (mutex s)]\<rparr>"
      define c' where "c' = c\<lparr>timeoutTimer := Some \<lparr>due = Some (now + LNCD_TIMEOUT env), captured = info\<rparr>\<rparr>"
      define s2 where "s2 = s1\<lparr>heap := heap s1 @ [c'],
                     connections := fmupd (key_of info) (length (heap s1)) (connections s1),
                     trace := trace s1 @ [Install (key_of info) (mutex s1)]\<rparr>"
      have ok1: "pool_ok env s1" using assms by (simp add: s1_def)
      from NewConnection_Inr [OF Inr] None False
      have "pool_ok env (s1\<lparr>heap := heap s1 @ [c'],
                     connections := fmupd (key_of info) (length (heap s1)) (connections s1)\<rparr>)"
        by (intro pool_ok_install [OF ok1,
              where t = "\<lparr>due = Some (now + LNCD_TIMEOUT env), captured = info\<rparr>"])
           (simp_all add: s1_def c'_def)
      then have ok2: "pool_ok env s2"
        by (simp add: s2_def)
      note eq = try'_created [OF None False Inr s1_def c'_def s2_def, of req]
      show ?thesis
      proof (cases "chan_send env (length (heap s)) req s2")
        case None
        with eq ok2 show ?thesis by simp
      next
        case (Some s3)
        from chan_send_kept [OF Some] chan_send_pool(1) [OF Some] ok2
        have "pool_ok env s3" by (rule pool_ok_kept)
        with eq Some show ?thesis by simp
      qed
    qed
  qed
qed

lemma execute_pool_ok:
  "pool_ok env s \<Longrightarrow> pool_ok env (state_of (execute fuel env now info req s))"
proof (induction fuel arbitrary: now s)
  case 0
  then show ?case by simp
next
  case (Suc fuel)
  show ?case
  proof (cases "mutex s")
    case True
    with Suc.prems show ?thesis by simp
  next
    case False
    from Suc.prems have ok: "pool_ok env (state_of (try' env now info req (s\<lparr>mutex := True\<rparr>)))"
      by (intro try'_pool_ok) simp
    show ?thesis
    proof (cases "try' env now info req (s\<lparr>mutex := True\<rparr>)")
      case (Retry s')
      with ok have "pool_ok env (s'\<lparr>mutex := False, trace := trace s' @ [Sleep]\<rparr>)" by simp
      from Suc.IH [OF this] Retry False show ?thesis by simp
    qed (use ok False in simp_all)
  qed
qed


section \<open>The idle timer\<close>

lemma pool_ok_timer:
  assumes ok: "pool_ok env s"
    and t: "timeoutTimer (heap s ! i) = Some t" "captured t' = captured t"
  shows "pool_ok env (s\<lparr>heap := (heap s)[i := (heap s ! i)\<lparr>timeoutTimer := Some t'\<rparr>]\<rparr>)"
proof -
  let ?h = "(heap s)[i := (heap s ! i)\<lparr>timeoutTimer := Some t'\<rparr>]"
  have "j < length ?h \<and> \<not> closed (?h ! j) \<and> key_of (connInfo (?h ! j)) = k
        \<and> (\<exists>u. timeoutTimer (?h ! j) = Some u \<and> key_of (captured u) = k)"
    if "fmlookup (connections s) k = Some j" for k j
  proof -
    from that ok have old: "j < length (heap s)" "\<not> closed (heap s ! j)"
      "key_of (connInfo (heap s ! j)) = k"
      "\<exists>u. timeoutTimer (heap s ! j) = Some u \<and> key_of (captured u) = k"
      by (auto simp: pool_ok_def pool_wf_def)
    with t show ?thesis by (cases "i = j") auto
  qed
  with ok show ?thesis
    by (simp add: pool_ok_def pool_wf_def sessions_bounded_def)
qed

lemma pool_ok_evict:
  assumes ok: "pool_ok env s"
    and t: "timeoutTimer (heap s ! i) = Some t"
  shows "pool_ok env (s\<lparr>heap := (heap s)[i := (heap s ! i)\<lparr>closed := True\<rparr>],
                        connections := fmdrop (key_of (captured t)) (connections s)\<rparr>)"
proof -
  let ?h = "(heap s)[i := (heap s ! i)\<lparr>closed := True\<rparr>]"
  have "j < length ?h \<and> \<not> closed (?h ! j) \<and> key_of (connInfo (?h ! j)) = k
        \<and> (\<exists>u. timeoutTimer (?h ! j) = Some u \<and> key_of (captured u) = k)"
    if "fmlookup (fmdrop (key_of (captured t)) (connections s)) k = Some j" for k j
  proof -
    from that have k: "k \<noteq> key_of (captured t)" and "fmlookup (connections s) k = Some j"
      by (simp_all split: if_splits)
    with ok have old: "j < length (heap s)" "\<not> closed (heap s ! j)"
      "key_of (connInfo (heap s ! j)) = k"
      "\<exists>u. timeoutTimer (heap s ! j) = Some u \<and> key_of (captured u) = k"
      by (auto simp: pool_ok_def pool_wf_def)
    from old(4) t k have "i \<noteq> j" by auto
    with old show ?thesis by simp
  qed
  moreover have "fcard (fmdom (connections s) |-| {|key_of (captured t)|})
                   \<le> fcard (fmdom (connections s))"
    by (rule fcard_fminus1_le)
  ultimately show ?thesis
    using ok by (simp add: pool_ok_def pool_wf_def sessions_bounded_def)
qed

text \<open>The two ways the timer function can end when the mutex is free.\<close>

lemma timeoutFunc_idle:
  "\<not> mutex s \<Longrightarrow> i < length (heap s) \<Longrightarrow> actions (heap s ! i) = [] \<Longrightarrow>
   \<not> closed (heap s ! i) \<Longrightarrow>
   timeoutFunc env now i info s =
     Done (s\<lparr>heap := (heap s)[i := (heap s ! i)\<lparr>closed := True\<rparr>],
             connections := fmdrop (key_of info) (connections s),
             trace := trace s @ [Closed i],
             mutex := False\<rparr>)"
  by (simp add: timeoutFunc_def Close_def)

lemma timeoutFunc_busy:
  "\<not> mutex s \<Longrightarrow> i < length (heap s) \<Longrightarrow> actions (heap s ! i) \<noteq> [] \<Longrightarrow>
   timeoutTimer (heap s ! i) = Some t \<Longrightarrow>
   timeoutFunc env now i info s =
     Done (s\<lparr>heap := (heap s)[i := (heap s ! i)
                     \<lparr>timeoutTimer := Some (t\<lparr>due := Some (now + LNCD_TIMEOUT env)\<rparr>)\<rparr>],
             mutex := False\<rparr>)"
  by (simp add: timeoutFunc_def)

lemma timeoutFunc_pool_ok:
  assumes ok: "pool_ok env s"
    and t: "timeoutTimer (heap s ! i) = Some t"
  shows "pool_ok env (state_of (timeoutFunc env now i (captured t) s))"
proof (cases "\<not> mutex s \<and> i < length (heap s)")
  case False
  with ok show ?thesis by (auto simp: timeoutFunc_def)
next
  case True
  show ?thesis
  proof (cases "actions (heap s ! i) = []")
    case idle: True
    show ?thesis
    proof (cases "closed (heap s ! i)")
      case True
      with \<open>\<not> mutex s \<and> i < length (heap s)\<close> idle ok show ?thesis
        by (simp add: timeoutFunc_def Close_def)
    next
      case False
      from pool_ok_evict [OF ok t]
      show ?thesis using True idle False by (simp add: timeoutFunc_idle)
    qed
  next
    case False
    from pool_ok_timer [OF ok t, of "t\<lparr>due := Some (now + LNCD_TIMEOUT env)\<rparr>"]
    show ?thesis using True False t by (simp add: timeoutFunc_busy)
  qed
qed

lemma timer_fires_Some:
  assumes "timer_fires env now i s = Some out"
  obtains t d where "i < length (heap s)" and "timeoutTimer (heap s ! i) = Some t"
    and "due t = Some d" and "d \<le> now"
    and "out = timeoutFunc env now i (captured t)
                 (s\<lparr>heap := (heap s)[i := (heap s ! i)\<lparr>timeoutTimer := Some (t\<lparr>due := None\<rparr>)\<rparr>]\<rparr>)"
  using assms by (auto simp: timer_fires_def split: if_splits option.splits)

lemma timer_fires_pool_ok:
  assumes ok: "pool_ok env s" and f: "timer_fires env now i s = Some out"
  shows "pool_ok env (state_of out)"
proof -
  from f obtain t d where i: "i < length (heap s)" and t: "timeoutTimer (heap s ! i) = Some t"
    and out: "out = timeoutFunc env now i (captured t)
                 (s\<lparr>heap := (heap s)[i := (heap s ! i)\<lparr>timeoutTimer := Some (t\<lparr>due := None\<rparr>)\<rparr>]\<rparr>)"
    by (rule timer_fires_Some)
  let ?s0 = "s\<lparr>heap := (heap s)[i := (heap s ! i)\<lparr>timeoutTimer := Some (t\<lparr>due := None\<rparr>)\<rparr>]\<rparr>"
  from pool_ok_timer [OF ok t, of "t\<lparr>due := None\<rparr>"] have ok0: "pool_ok env ?s0" by simp
  from i have t0: "timeoutTimer (heap ?s0 ! i) = Some (t\<lparr>due := None\<rparr>)" by simp
  from timeoutFunc_pool_ok [OF ok0 t0, of now] out show ?thesis by simp
qed

lemma pool_wf_one_session:
  assumes "pool_wf s"
  shows "one_session_per_key s"
proof -
  have "k = k' \<and> i = j \<and> \<not> closed (heap s ! i)"
    if i: "fmlookup (connections s) k = Some i" and j: "fmlookup (connections s) k' = Some j"
      and same: "key_of (connInfo (heap s ! i)) = key_of (connInfo (heap s ! j))"
    for k k' i j
  proof -
    from assms i have ki: "key_of (connInfo (heap s ! i)) = k" and live: "\<not> closed (heap s ! i)"
      by (simp_all add: pool_wf_def)
    from assms j have "key_of (connInfo (heap s ! j)) = k'"
      by (simp add: pool_wf_def)
    with ki same have "k = k'" by simp
    with i j live show ?thesis by simp
  qed
  then show ?thesis unfolding one_session_per_key_def by blast
qed


section \<open>What a call of execute leaves unchanged\<close>

lemma objects_kept_append: "objects_kept s (s\<lparr>heap := heap s @ [c]\<rparr>)"
  by (simp add: objects_kept_def nth_append)






section \<open>The example pool\<close>

lemma demo_NewConnection:
  "NewConnection demo_env demo_infoA =
     Inr \<lparr>connInfo = demo_infoA\<lparr>LocalKey := ''01'', Status := ''Connected'',
                macaroon := Some (Macaroon [''permissions = info:read,offchain:*''])\<rparr>,
          actions = [], closed = False,
          registry = [''echo'' \<mapsto> (\<lambda>payload. [(payload, None)])],
          timeoutTimer = None,
          perms = \<lparr>capabilities = {(''info'', ''read''), (''offchain'', ''*'')}\<rparr>\<rparr>"
  by (simp add: NewConnection_def demo_env_def demo_infoA_def parseKeys_def onAuthData_def
        hex_EncodeToString_def hextable_def fromHexChar_def)

lemma demo_state_eq:
  "demo_state =
     \<lparr>connections = fmupd (key_of demo_infoA) 0 fmempty, mutex = False,
      heap = [\<lparr>connInfo = demo_infoA\<lparr>LocalKey := ''01'', Status := ''Connected'',
                macaroon := Some (Macaroon [''permissions = info:read,offchain:*''])\<rparr>,
          actions = [demo_echo 1], closed = False,
          registry = [''echo'' \<mapsto> (\<lambda>payload. [(payload, None)])],
          timeoutTimer = Some \<lparr>due = Some (300 * Second), captured = demo_infoA\<rparr>,
          perms = \<lparr>capabilities = {(''info'', ''read''), (''offchain'', ''*'')}\<rparr>\<rparr>],
      trace = [Handshake demo_infoA True, Install (key_of demo_infoA) True, Send 0 True]\<rparr>"
  by (simp add: demo_state_def NewConnectionPool_def try'_def call_NewConnection_def
        install_def demo_NewConnection chan_send_def fcard_fempty)
     (simp add: demo_env_def)

lemma pool_ok_empty: "0 \<le> LNCD_LIMIT_ACTIVE_CONNECTIONS env \<Longrightarrow> pool_ok env NewConnectionPool"
  by (simp add: pool_ok_def pool_wf_def sessions_bounded_def NewConnectionPool_def fcard_fempty)

lemma pool_ok_demo: "pool_ok demo_env demo_state"
  unfolding demo_state_def
  by (intro execute_pool_ok pool_ok_empty) (simp add: demo_env_def)

section \<open>The invariants of the pool, as claimed\<close>

text \<open>
  C5. The two invariants, that the map holds at most \<open>LNCD_LIMIT_ACTIVE_CONNECTIONS\<close>
  entries and that connections in the map with the same (mailbox, pairing phrase) are
  one live connection, are preserved by every call of \<open>execute\<close>, however it ends, and by
  every firing of an idle timer. (They hold of the empty pool when the limit is not
  negative.)
\<close>

theorem pool_invariants_preserved:
  assumes "pool_wf s" and "sessions_bounded env s"
  shows "pool_wf (state_of (execute fuel env now info req s))
         \<and> sessions_bounded env (state_of (execute fuel env now info req s))
         \<and> one_session_per_key (state_of (execute fuel env now info req s))
         \<and> (\<forall>out. timer_fires env now' i s = Some out \<longrightarrow>
               pool_wf (state_of out) \<and> sessions_bounded env (state_of out)
               \<and> one_session_per_key (state_of out))"
proof -
  from assms have ok: "pool_ok env s" by (simp add: pool_ok_def)
  from execute_pool_ok [OF ok, of fuel now info req]
  have e: "pool_wf (state_of (execute fuel env now info req s))"
    "sessions_bounded env (state_of (execute fuel env now info req s))"
    by (simp_all add: pool_ok_def)
  have "pool_wf (state_of out) \<and> sessions_bounded env (state_of out)
        \<and> one_session_per_key (state_of out)"
    if "timer_fires env now' i s = Some out" for out
    using timer_fires_pool_ok [OF ok that] by (simp add: pool_ok_def pool_wf_one_session)
  with e show ?thesis by (simp add: pool_wf_one_session)
qed

theorem pool_invariants_preserved_witness:
  "pool_wf NewConnectionPool \<and> sessions_bounded demo_env NewConnectionPool
   \<and> pool_wf demo_state \<and> sessions_bounded demo_env demo_state
   \<and> one_session_per_key demo_state
   \<and> fcard (fmdom (connections demo_state)) = 1
   \<and> (case timer_fires demo_env (300 * Second) 0 demo_state of
        None \<Rightarrow> False
      | Some out \<Rightarrow> pool_wf (state_of out) \<and> sessions_bounded demo_env (state_of out)
                     \<and> one_session_per_key (state_of out))"
proof -
  have a: "pool_wf NewConnectionPool" and b: "sessions_bounded demo_env NewConnectionPool"
    using pool_ok_empty [of demo_env] by (simp_all add: pool_ok_def demo_env_def)
  have c: "pool_wf demo_state" and d: "sessions_bounded demo_env demo_state"
    using pool_ok_demo by (simp_all add: pool_ok_def)
  have f: "timer_fires demo_env (300 * Second) 0 demo_state \<noteq> None"
    by (simp add: timer_fires_def demo_state_eq)
  have n: "fcard (fmdom (connections demo_state)) = 1"
    by (simp add: demo_state_eq fcard_finsert_disjoint fcard_fempty)
  from pool_invariants_preserved [OF a b, of 1 0 demo_infoA "demo_echo 1"]
    pool_invariants_preserved [OF c d, of 0 0 demo_infoA "demo_echo 1" "300 * Second" 0]
    a b f n
  show ?thesis by (auto simp: demo_state_def)
qed

section \<open>The idle timer, as claimed\<close>




section \<open>The mutex during a call of execute\<close>

lemma lock_flags_append: "lock_flags (xs @ ys) = lock_flags xs @ lock_flags ys"
  by (induction xs rule: lock_flags.induct) simp_all

lemma lock_flags_callbacks:
  "lock_flags
     (map (\<lambda>(resultJSON, err). case err of Some e \<Rightarrow> OnError a e
                                 | None \<Rightarrow> OnResponse a info resultJSON) rs) = []"
  by (induction rs) (auto split: option.splits)

lemma runLoop_body_flags: "lock_flags (runLoop_body env conn req) = []"
  by (simp add: runLoop_body_def json_Marshal_def lock_flags_callbacks
           split: sum.splits option.splits)

lemma runLoop_step_trace:
  "\<exists>evs. trace (runLoop_step env i s) = trace s @ evs \<and> lock_flags evs = []"
  by (auto simp: runLoop_step_def runLoop_body_flags split: list.splits)

lemma chan_send_trace:
  assumes "chan_send env i req s = Some s'"
  shows "\<exists>evs. trace s' = trace s @ evs \<and> lock_flags evs = [mutex s]"
proof -
  from chan_send_eq [OF assms] obtain s1
    where s1: "s1 = s \<or> s1 = runLoop_step env i s"
      and s': "s' = s1\<lparr>heap := (heap s1)[i := (heap s1 ! i)\<lparr>actions := actions (heap s1 ! i) @ [req]\<rparr>],
                     trace := trace s1 @ [Send i (mutex s1)]\<rparr>"
    by blast
  from s1 runLoop_step_trace [of env i s] obtain evs
    where e: "trace s1 = trace s @ evs" "lock_flags evs = []"
    by auto
  from s1 have m: "mutex s1 = mutex s" by (auto simp: runLoop_step_pool)
  from s' e m have "trace s' = trace s @ (evs @ [Send i (mutex s)])
                    \<and> lock_flags (evs @ [Send i (mutex s)]) = [mutex s]"
    by (simp add: lock_flags_append)
  then show ?thesis by blast
qed

lemma try'_trace:
  assumes "mutex s"
  shows "\<exists>evs. trace (state_of (try' env now info req s)) = trace s @ evs
               \<and> set (lock_flags evs) \<subseteq> {True}"
proof (cases "fmlookup (connections s) (key_of info)")
  case (Some i)
  show ?thesis
  proof (cases "chan_send env i req s")
    case None
    with Some show ?thesis by (simp add: try'_present)
  next
    case s': (Some s')
    from chan_send_trace [OF s'] Some s' assms show ?thesis by (auto simp: try'_present)
  qed
next
  case None
  show ?thesis
  proof (cases "LNCD_LIMIT_ACTIVE_CONNECTIONS env \<le> int (fcard (fmdom (connections s)))")
    case True
    with None show ?thesis by (simp add: try'_full)
  next
    case False
    show ?thesis
    proof (cases "NewConnection env info")
      case (Inl err)
      with None False assms show ?thesis by (simp add: try'_failed)
    next
      case (Inr c)
      define s1 where "s1 = s\<lparr>trace := trace s @ [Handshake info (mutex s)]\<rparr>"
      define c' where "c' = c\<lparr>timeoutTimer := Some \<lparr>due = Some (now + LNCD_TIMEOUT env), captured = info\<rparr>\<rparr>"
      define s2 where "s2 = s1\<lparr>heap := heap s1 @ [c'],
                     connections := fmupd (key_of info) (length (heap s1)) (connections s1),
                     trace := trace s1 @ [Install (key_of info) (mutex s1)]\<rparr>"
      note eq = try'_created [OF None False Inr s1_def c'_def s2_def, of req]
      have t2: "trace s2 = trace s @ [Handshake info True, Install (key_of info) True]"
        and m2: "mutex s2"
        using assms by (simp_all add: s2_def s1_def)
      show ?thesis
      proof (cases "chan_send env (length (heap s)) req s2")
        case None
        with eq t2 show ?thesis by simp
      next
        case (Some s3)
        from chan_send_trace [OF Some] m2 obtain evs
          where "trace s3 = trace s2 @ evs" and "lock_flags evs = [True]" by auto
        with t2 have "trace s3 = trace s @ (Handshake info True # Install (key_of info) True # evs)
                      \<and> set (lock_flags (Handshake info True # Install (key_of info) True # evs))
                          \<subseteq> {True}"
          by simp
        with eq Some show ?thesis by auto
      qed
    qed
  qed
qed

lemma try'_mutex: "mutex (state_of (try' env now info req s)) = mutex s"
proof (cases "fmlookup (connections s) (key_of info)")
  case (Some i)
  then show ?thesis
    by (cases "chan_send env i req s") (simp_all add: try'_present chan_send_pool)
next
  case None
  show ?thesis
  proof (cases "LNCD_LIMIT_ACTIVE_CONNECTIONS env \<le> int (fcard (fmdom (connections s)))")
    case True
    with None show ?thesis by (simp add: try'_full)
  next
    case False
    show ?thesis
    proof (cases "NewConnection env info")
      case (Inl err)
      with None False show ?thesis by (simp add: try'_failed)
    next
      case (Inr c)
      define s1 where "s1 = s\<lparr>trace := trace s @ [Handshake info (mutex s)]\<rparr>"
      define c' where "c' = c\<lparr>timeoutTimer := Some \<lparr>due = Some (now + LNCD_TIMEOUT env), captured = info\<rparr>\<rparr>"
      define s2 where "s2 = s1\<lparr>heap := heap s1 @ [c'],
                     connections := fmupd (key_of info) (length (heap s1)) (connections s1),
                     trace := trace s1 @ [Install (key_of info) (mutex s1)]\<rparr>"
      note eq = try'_created [OF None False Inr s1_def c'_def s2_def, of req]
      have "mutex s2 = mutex s" by (simp add: s2_def s1_def)
      with eq show ?thesis
        by (cases "chan_send env (length (heap s)) req s2") (simp_all add: chan_send_pool)
    qed
  qed
qed

lemma execute_trace:
  "\<exists>evs. trace (state_of (execute fuel env now info req s)) = trace s @ evs
         \<and> set (lock_flags evs) \<subseteq> {True}"
proof (induction fuel arbitrary: now s)
  case 0
  show ?case by simp
next
  case (Suc fuel)
  show ?case
  proof (cases "mutex s")
    case True
    then show ?thesis by simp
  next
    case False
    from try'_trace [of "s\<lparr>mutex := True\<rparr>" env now info req] obtain evs
      where t: "trace (state_of (try' env now info req (s\<lparr>mutex := True\<rparr>))) = trace s @ evs"
        and f: "set (lock_flags evs) \<subseteq> {True}"
      by auto
    show ?thesis
    proof (cases "try' env now info req (s\<lparr>mutex := True\<rparr>)")
      case (Retry s')
      from Suc.IH [of "now + Second" "s'\<lparr>mutex := False, trace := trace s' @ [Sleep]\<rparr>"]
      obtain evs' where
        "trace (state_of (execute fuel env (now + Second) info req
                  (s'\<lparr>mutex := False, trace := trace s' @ [Sleep]\<rparr>)))
           = (trace s' @ [Sleep]) @ evs'"
        and "set (lock_flags evs') \<subseteq> {True}"
        by auto
      with t f Retry False
      have "trace (state_of (execute (Suc fuel) env now info req s))
              = trace s @ (evs @ Sleep # evs')
            \<and> set (lock_flags (evs @ Sleep # evs')) \<subseteq> {True}"
        by (simp add: lock_flags_append)
      then show ?thesis by blast
    qed (use t f False in auto)
  qed
qed

lemma execute_unlocks:
  "\<not> mutex s \<Longrightarrow>
   execute fuel env now info req s = Done s' \<or> execute fuel env now info req s = Retry s' \<Longrightarrow>
   \<not> mutex s'"
proof (induction fuel arbitrary: now s)
  case 0
  then show ?case by simp
next
  case (Suc fuel)
  show ?case
  proof (cases "try' env now info req (s\<lparr>mutex := True\<rparr>)")
    case (Retry s1)
    with Suc.prems
    have "execute fuel env (now + Second) info req (s1\<lparr>mutex := False, trace := trace s1 @ [Sleep]\<rparr>) = Done s'
          \<or> execute fuel env (now + Second) info req (s1\<lparr>mutex := False, trace := trace s1 @ [Sleep]\<rparr>) = Retry s'"
      by simp
    with Suc.IH [of "s1\<lparr>mutex := False, trace := trace s1 @ [Sleep]\<rparr>" "now + Second"]
    show ?thesis by simp
  qed (use Suc.prems in auto)
qed

text \<open>
  C3 as stated fails: \<open>NewConnection\<close> is entered with the mutex held. The loop of
  \<open>execute\<close> locks the mutex, calls \<open>try\<close>, which constructs the connection, and unlocks
  only when \<open>try\<close> has returned.
\<close>

theorem handshake_lock_counterexample:
  "handshake_flags
     (new_events NewConnectionPool
        (state_of (execute 1 demo_env 0 demo_infoA (demo_echo 1) NewConnectionPool)))
   = [True]"
  using demo_state_eq by (simp add: demo_state_def new_events_def NewConnectionPool_def)

text \<open>
  C3, amended. During a call of \<open>execute\<close> the mutex is held through the whole of each
  iteration of the loop: it is held when \<open>NewConnection\<close> is called, when the connection is
  installed in the map and when the action is sent on the connection's channel. \<open>try\<close>
  never releases it: the state \<open>try\<close> returns has the mutex as it found it, and \<open>execute\<close>
  releases it only after \<open>try\<close> has returned, so that it is free when \<open>execute\<close> returns and
  between two iterations. While it is held, a call of \<open>execute\<close> for any descriptor waits
  for it.
\<close>

theorem mutex_held_through_try:
  "(\<forall>held \<in> set (lock_flags
                    (new_events s (state_of (execute fuel env now info req s)))). held)
   \<and> mutex (state_of (try' env now info req s)) = mutex s
   \<and> (\<not> mutex s \<longrightarrow>
        (\<forall>s'. execute fuel env now info req s = Done s'
               \<or> execute fuel env now info req s = Retry s' \<longrightarrow> \<not> mutex s'))
   \<and> (mutex s \<longrightarrow>
        (\<forall>info' req'. execute (Suc fuel) env now info' req' s = Blocked s))"
proof -
  from execute_trace [of fuel env now info req s] obtain evs
    where "trace (state_of (execute fuel env now info req s)) = trace s @ evs"
      and "set (lock_flags evs) \<subseteq> {True}"
    by blast
  then have flags: "\<forall>held \<in> set (lock_flags
                    (new_events s (state_of (execute fuel env now info req s)))). held"
    by (auto simp: new_events_def)
  have unlocks: "\<not> mutex s'"
    if "\<not> mutex s" and "execute fuel env now info req s = Done s'
               \<or> execute fuel env now info req s = Retry s'" for s'
    using that by (rule execute_unlocks)
  have waits: "execute (Suc fuel) env now info' req' s = Blocked s" if "mutex s" for info' req'
    using that by simp
  from flags try'_mutex [of env now info req s] unlocks waits show ?thesis by blast
qed

theorem mutex_held_through_try_witness:
  "lock_flags
     (new_events NewConnectionPool
        (state_of (execute 1 demo_env 0 demo_infoA (demo_echo 1) NewConnectionPool)))
     = [True, True, True]
   \<and> \<not> mutex NewConnectionPool
   \<and> execute 1 demo_env 0 demo_infoA (demo_echo 1) NewConnectionPool = Done demo_state
   \<and> \<not> mutex demo_state
   \<and> mutex (NewConnectionPool\<lparr>mutex := True\<rparr>)
   \<and> mutex (state_of (try' demo_env 0 demo_infoA (demo_echo 1)
                        (NewConnectionPool\<lparr>mutex := True\<rparr>)))
   \<and> execute 1 demo_env 0 demo_infoB (demo_echo 2) (NewConnectionPool\<lparr>mutex := True\<rparr>)
       = Blocked (NewConnectionPool\<lparr>mutex := True\<rparr>)"
proof -
  have f: "lock_flags
     (new_events NewConnectionPool
        (state_of (execute 1 demo_env 0 demo_infoA (demo_echo 1) NewConnectionPool)))
   = [True, True, True]"
    using demo_state_eq by (simp add: demo_state_def new_events_def NewConnectionPool_def)
  have free: "\<not> mutex NewConnectionPool" by (simp add: NewConnectionPool_def)
  have held: "mutex (NewConnectionPool\<lparr>mutex := True\<rparr>)" by simp
  have d: "execute 1 demo_env 0 demo_infoA (demo_echo 1) NewConnectionPool = Done demo_state"
    unfolding demo_state_def
    by (simp add: NewConnectionPool_def try'_def call_NewConnection_def install_def
          demo_NewConnection chan_send_def fcard_fempty)
       (simp add: demo_env_def)
  from mutex_held_through_try [of NewConnectionPool 1 demo_env 0 demo_infoA "demo_echo 1"]
    free d
  have a: "\<not> mutex demo_state" by blast
  from mutex_held_through_try
         [of "NewConnectionPool\<lparr>mutex := True\<rparr>" 0 demo_env 0 demo_infoA "demo_echo 1"] held
  have b: "mutex (state_of (try' demo_env 0 demo_infoA (demo_echo 1)
                              (NewConnectionPool\<lparr>mutex := True\<rparr>)))"
    and c: "execute 1 demo_env 0 demo_infoB (demo_echo 2) (NewConnectionPool\<lparr>mutex := True\<rparr>)
              = Blocked (NewConnectionPool\<lparr>mutex := True\<rparr>)"
    by simp_all
  from f free d a held b c show ?thesis by blast
qed

section \<open>Two defects of execute\<close>

lemma execute_failed:
  assumes "\<not> mutex s"
    and "fmlookup (connections s) (key_of info) = None"
    and "\<not> LNCD_LIMIT_ACTIVE_CONNECTIONS env \<le> int (fcard (fmdom (connections s)))"
    and "NewConnection env info = Inl err"
  shows "execute (Suc fuel) env now info req s =
           Panic (s\<lparr>mutex := True,
                    trace := trace s @ [Handshake info True, OnError (ident req) err]\<rparr>)"
  using assms try'_failed [of "s\<lparr>mutex := True\<rparr>" info env err now req] by simp

lemma execute_full_trace:
  "\<not> mutex s \<Longrightarrow> fmlookup (connections s) (key_of info) = None \<Longrightarrow>
   LNCD_LIMIT_ACTIVE_CONNECTIONS env \<le> int (fcard (fmdom (connections s))) \<Longrightarrow>
   execute fuel env now info req s =
     Retry (s\<lparr>trace := trace s @
                concat (replicate fuel [OnError (ident req) TooManyActiveConnections, Sleep])\<rparr>)"
proof (induction fuel arbitrary: now s)
  case 0
  show ?case by simp
next
  case (Suc fuel)
  let ?s' = "s\<lparr>mutex := True, trace := trace s @ [OnError (ident req) TooManyActiveConnections]\<rparr>"
  let ?s'' = "?s'\<lparr>mutex := False, trace := trace ?s' @ [Sleep]\<rparr>"
  from Suc.prems have t: "try' env now info req (s\<lparr>mutex := True\<rparr>) = Retry ?s'"
    by (simp add: try'_full)
  from Suc.prems
  have "execute fuel env (now + Second) info req ?s'' =
          Retry (?s''\<lparr>trace := trace ?s'' @
                   concat (replicate fuel [OnError (ident req) TooManyActiveConnections, Sleep])\<rparr>)"
    by (intro Suc.IH) simp_all
  with t Suc.prems(1) show ?case by simp
qed

text \<open>
  C1, at a failing input. The pool holds one connection and has room for one. A request
  for another descriptor is refused: each iteration of the loop calls \<open>onError\<close> and asks
  for another iteration, so after two iterations the action has had two calls of its
  \<open>onError\<close>, and the loop has not ended.
\<close>

theorem retry_repeats_onError:
  "execute 2 demo_env 5 demo_infoB (demo_echo 2) demo_state =
     Retry (demo_state\<lparr>trace := trace demo_state @
              [OnError 2 TooManyActiveConnections, Sleep,
               OnError 2 TooManyActiveConnections, Sleep]\<rparr>)
   \<and> callbacks_of 2
       (new_events demo_state
          (state_of (execute 2 demo_env 5 demo_infoB (demo_echo 2) demo_state)))
     = [OnError 2 TooManyActiveConnections, OnError 2 TooManyActiveConnections]"
proof -
  have free: "\<not> mutex demo_state"
    and absent: "fmlookup (connections demo_state) (key_of demo_infoB) = None"
    by (simp_all add: demo_state_eq key_of_def demo_infoA_def demo_infoB_def)
  have full: "LNCD_LIMIT_ACTIVE_CONNECTIONS demo_env
                \<le> int (fcard (fmdom (connections demo_state)))"
    by (simp add: demo_state_eq demo_env_def fcard_finsert_disjoint fcard_fempty)
  have two: "concat (replicate 2 [OnError (ident (demo_echo 2)) TooManyActiveConnections, Sleep])
               = [OnError 2 TooManyActiveConnections, Sleep,
                  OnError 2 TooManyActiveConnections, Sleep]"
    by (simp add: numeral_2_eq_2 demo_echo_def)
  from execute_full_trace [OF free absent full, of 2 5 "demo_echo 2"]
  show ?thesis by (simp add: two new_events_def callbacks_of_def)
qed

text \<open>
  C2, at a failing input. The local key \<open>zz\<close> is no hexadecimal string, so \<open>NewConnection\<close>
  fails. \<open>execute\<close> calls \<open>onError\<close> with the error, installs nothing and enqueues nothing,
  but it does not return: it goes on to send on the channel of the nil connection,
  which panics, and the pool's mutex stays locked.
\<close>

theorem failed_construction_panics:
  "NewConnection demo_env (demo_infoA\<lparr>LocalKey := ''zz''\<rparr>) = Inl (InvalidByteError CHR ''z'')
   \<and> execute 1 demo_env 0 (demo_infoA\<lparr>LocalKey := ''zz''\<rparr>) (demo_echo 1) NewConnectionPool =
       Panic (NewConnectionPool
                \<lparr>mutex := True,
                 trace := [Handshake (demo_infoA\<lparr>LocalKey := ''zz''\<rparr>) True,
                           OnError 1 (InvalidByteError CHR ''z'')]\<rparr>)"
proof -
  have n: "NewConnection demo_env (demo_infoA\<lparr>LocalKey := ''zz''\<rparr>)
             = Inl (InvalidByteError CHR ''z'')"
    by (simp add: NewConnection_def parseKeys_def demo_infoA_def fromHexChar_def)
  have free: "\<not> mutex NewConnectionPool"
    and absent: "fmlookup (connections NewConnectionPool)
                   (key_of (demo_infoA\<lparr>LocalKey := ''zz''\<rparr>)) = None"
    and room: "\<not> LNCD_LIMIT_ACTIVE_CONNECTIONS demo_env
                 \<le> int (fcard (fmdom (connections NewConnectionPool)))"
    by (simp_all add: NewConnectionPool_def demo_env_def fcard_fempty)
  from execute_failed [OF free absent room n, of 0 0 "demo_echo 1"] n
  show ?thesis by (simp add: NewConnectionPool_def demo_echo_def)
qed

end
